theory Spec2Isabelle
  imports Complex_Main "HOL-Library.Multiset"
begin

text \<open>
  A model of the rally countdown: the client's clock-offset estimator and rally
  schedule (\<open>web/src/App.jsx\<close>) and the room object of the worker
  (\<open>worker/src/index.ts\<close>).  Each function of the source is a function here
  that takes the state it reads and returns the state it leaves; every value of
  \<open>Date.now()\<close> is an argument.
\<close>

section \<open>JavaScript values\<close>

text \<open>
  A finite JavaScript number is a rational: every finite double is one, and on
  integer and half-integer millisecond values below \<open>2^53\<close> the double
  operations \<open>+\<close>, \<open>-\<close> and \<open>/ 2\<close> used by this program are exact, so
  they are the operations of \<^typ>\<open>rat\<close>.  Rounding and overflow of doubles
  are outside this model.
\<close>

type_synonym number = rat

text \<open>
  A value read from a parsed JSON message in a field that \<open>ClientMsg\<close> and
  \<open>TimeSyncResponse\<close> declare as \<open>number\<close> or as optional \<open>number\<close>: the
  field is absent (\<open>undefined\<close>), \<open>null\<close>, a finite number, or one of the
  non-finite numbers.
\<close>

datatype jsval = JUndefined | JNull | JNum number | JNaN | JPosInf | JNegInf

text \<open>\<open>typeof v === "number"\<close>\<close>

fun typeof_number :: "jsval \<Rightarrow> bool" where
  "typeof_number JUndefined = False"
| "typeof_number JNull = False"
| "typeof_number (JNum _) = True"
| "typeof_number JNaN = True"
| "typeof_number JPosInf = True"
| "typeof_number JNegInf = True"

text \<open>\<open>Number.isFinite(v)\<close>: a number that is neither NaN nor infinite.\<close>

fun Number_isFinite :: "jsval \<Rightarrow> bool" where
  "Number_isFinite (JNum _) = True"
| "Number_isFinite _ = False"

text \<open>\<open>Number(v)\<close>: \<open>undefined\<close> becomes NaN, \<open>null\<close> becomes 0.\<close>

fun Number :: "jsval \<Rightarrow> jsval" where
  "Number JUndefined = JNaN"
| "Number JNull = JNum 0"
| "Number v = v"

text \<open>\<open>v ?? d\<close>\<close>

fun nullish :: "jsval \<Rightarrow> jsval \<Rightarrow> jsval" where
  "nullish JUndefined d = d"
| "nullish JNull d = d"
| "nullish v d = v"

text \<open>
  \<open>xs.slice(k)\<close> with one argument: a negative \<open>k\<close> counts from the end, and
  the start is clipped to the array.
\<close>

definition slice_from :: "int \<Rightarrow> 'a list \<Rightarrow> 'a list" where
  "slice_from k xs =
     (let n = int (length xs);
          start = (if k < 0 then max (n + k) 0 else min k n)
      in drop (nat start) xs)"

section \<open>Client: clock synchronisation (App.jsx)\<close>

definition SYNC_SAMPLE_COUNT :: nat where
  "SYNC_SAMPLE_COUNT = 6"

record ClockSyncSample =
  offsetMs :: number
  rttMs :: number
  atTs :: number

text \<open>
  The part of the component's state the estimator touches: the ref
  \<open>syncSamplesRef\<close>, the ref \<open>offsetRef\<close> and the React states
  \<open>timeOffsetMs\<close>, \<open>bestRttMs\<close>, \<open>lastSyncAt\<close> (\<open>null\<close> is \<open>None\<close>).
\<close>

record SyncState =
  syncSamplesRef :: "ClockSyncSample list"
  offsetRef :: number
  timeOffsetMs :: number
  bestRttMs :: "number option"
  lastSyncAt :: "number option"

definition initialSyncState :: SyncState where
  "initialSyncState =
     \<lparr>syncSamplesRef = [], offsetRef = 0, timeOffsetMs = 0, bestRttMs = None, lastSyncAt = None\<rparr>"

text \<open>
  \<open>samples.reduce((min, next) => (next.rttMs < min.rttMs ? next : min), samples[0])\<close>;
  on an empty array \<open>samples[0]\<close> is \<open>undefined\<close> and so is the result.
\<close>

definition best_of :: "ClockSyncSample list \<Rightarrow> ClockSyncSample option" where
  "best_of samples =
     (case samples of
        [] \<Rightarrow> None
      | s0 # _ \<Rightarrow> Some (foldl (\<lambda>m next. if rttMs next < rttMs m then next else m) s0 samples))"

definition setOffsetSample :: "number \<Rightarrow> number \<Rightarrow> number \<Rightarrow> SyncState \<Rightarrow> SyncState" where
  "setOffsetSample offsetMs' rttMs' atTs' s =
     (let samples = slice_from (- int SYNC_SAMPLE_COUNT + 1) (syncSamplesRef s)
                      @ [\<lparr>offsetMs = offsetMs', rttMs = rttMs', atTs = atTs'\<rparr>];
          s1 = s\<lparr>syncSamplesRef := samples\<rparr>
      in case best_of samples of
           None \<Rightarrow> s1
         | Some best \<Rightarrow>
             s1\<lparr>offsetRef := offsetMs best, timeOffsetMs := offsetMs best,
                bestRttMs := Some (rttMs best), lastSyncAt := Some atTs'\<rparr>)"

text \<open>The payload of a \<open>TIME_SYNC_RESPONSE\<close> as parsed; a missing field is \<open>JUndefined\<close>.\<close>

record TimeSyncPayload =
  t0 :: jsval
  t1 :: jsval
  t2 :: jsval

text \<open>
  \<open>handleTimeSyncResponse(payload)\<close>, with \<open>t3\<close> the value \<open>Date.now()\<close>
  returns; a falsy payload is \<open>None\<close>.
\<close>

definition handleTimeSyncResponse :: "number \<Rightarrow> TimeSyncPayload option \<Rightarrow> SyncState \<Rightarrow> SyncState" where
  "handleTimeSyncResponse t3 payload s =
     (case payload of
        None \<Rightarrow> s
      | Some p \<Rightarrow>
          (case (t0 p, t1 p, t2 p) of
             (JNum a, JNum b, JNum c) \<Rightarrow>
               (let rtt = max 0 ((t3 - a) - (c - b));
                    offset = ((b - a) + (c - t3)) / 2
                in setOffsetSample offset rtt t3 s)
           | _ \<Rightarrow> s))"

section \<open>Shared data model (worker/src/index.ts)\<close>

record Player =
  id' :: string
  name :: string
  marchMs :: number

record Rally =
  starterId :: string
  launchAt :: number

text \<open>
  \<open>RoomState\<close>, polymorphic in how the players array is held: by its contents
  (\<^typ>\<open>Player list\<close>) in a serialised state (a stored state, a \<open>STATE\<close>
  message, the client's replica), by reference in the server's memory (below).
  \<open>lastActiveAt\<close> is \<open>None\<close> when the field is missing.
\<close>

record 'p RoomState =
  players :: 'p
  rally :: "Rally option"
  lastActiveAt :: "number option"

section \<open>Client: rally schedule (App.jsx)\<close>

text \<open>\<open>String(n)\<close> for a natural number, and \<open>pad2\<close>.\<close>

fun String_nat :: "nat \<Rightarrow> string" where
  "String_nat n =
     (if n < 10 then [char_of (48 + n)]
      else String_nat (n div 10) @ [char_of (48 + n mod 10)])"

declare String_nat.simps [simp del]

definition pad2 :: "nat \<Rightarrow> string" where
  "pad2 n = replicate (2 - length (String_nat n)) CHR ''0'' @ String_nat n"

text \<open>\<open>Math.round(x)\<close>: the nearest integer, a half rounded up.\<close>

definition Math_round :: "number \<Rightarrow> int" where
  "Math_round x = \<lfloor>x + 1 / 2\<rfloor>"

definition formatMs :: "number \<Rightarrow> string" where
  "formatMs ms =
     (let totalSec = nat (max 0 (Math_round (ms / 1000)));
          m = totalSec div 60;
          s = totalSec mod 60
      in pad2 m @ '':'' @ pad2 s)"

text \<open>A row of the table: the player's fields (\<open>...p\<close>) and the computed instants.\<close>

record Row = Player +
  startAt :: number
  rallyStartAt :: number
  diffMs :: number
  diffToRallyStartMs :: number
  diffFromLaunchMs :: number
  landInMs :: number

datatype Phase = JOIN | MARCH

record Computed =
  starter :: Player
  launchAt :: number
  rallyStartAt :: number
  arrivalAt :: number
  rows :: "Row list"
  joinRemainingMs :: number
  phase :: Phase

text \<open>
  The \<open>useMemo\<close> body of \<open>rallyComputed\<close>: \<open>state\<close> is the replica of the
  last \<open>STATE\<close> message, \<open>now\<close> the corrected clock
  (\<open>Date.now() + offsetRef.current\<close>), \<open>delay\<close> the configured rally
  duration in minutes.  \<open>null\<close> is \<open>None\<close>.  \<open>Array.prototype.sort\<close> is
  stable, as \<^const>\<open>sort_key\<close> is.
\<close>

definition rallyComputed :: "Player list RoomState \<Rightarrow> number \<Rightarrow> number \<Rightarrow> Computed option" where
  "rallyComputed state now delay =
     (case rally state of
        None \<Rightarrow> None
      | Some activeRally \<Rightarrow>
          (case find (\<lambda>p. id' p = starterId activeRally) (players state) of
             None \<Rightarrow> None
           | Some starter' \<Rightarrow>
               (let launchAt' = Rally.launchAt activeRally;
                    rallyDurationMs = delay * 60 * 1000;
                    rallyStartAt' = launchAt' - rallyDurationMs;
                    arrivalAt' = launchAt' + marchMs starter';
                    joinRemainingMs' = launchAt' - now;
                    phase' = (if joinRemainingMs' > 0 then JOIN else MARCH);
                    rows' = sort_key startAt
                      (map (\<lambda>p.
                         (let startAt' = arrivalAt' - marchMs p;
                              playerRallyStartAt = startAt' - rallyDurationMs;
                              diffMs' = startAt' - now;
                              diffToRallyStartMs' = playerRallyStartAt - now;
                              diffFromLaunchMs' = startAt' - launchAt';
                              landInMs' = arrivalAt' - now
                          in \<lparr>id' = id' p, name = name p, marchMs = marchMs p,
                              startAt = startAt', rallyStartAt = playerRallyStartAt,
                              diffMs = diffMs', diffToRallyStartMs = diffToRallyStartMs',
                              diffFromLaunchMs = diffFromLaunchMs', landInMs = landInMs'\<rparr>))
                         (players state))
                in Some \<lparr>starter = starter', launchAt = launchAt', rallyStartAt = rallyStartAt',
                          arrivalAt = arrivalAt', rows = rows', joinRemainingMs = joinRemainingMs',
                          phase = phase'\<rparr>)))"

text \<open>
  The countdown cell of a row (the \<open>rows.map\<close> callback of the table):
  \<open>beforeMarch\<close> is the test that appends \<open>(before March)\<close>.
\<close>

definition beforeMarch :: "Row \<Rightarrow> bool" where
  "beforeMarch r = (diffFromLaunchMs r < 0)"

definition countdownText :: "Phase \<Rightarrow> Row \<Rightarrow> string" where
  "countdownText ph r =
     (if ph = JOIN then
        (if diffToRallyStartMs r > 0 then ''in '' @ formatMs (diffToRallyStartMs r)
         else ''running '' @ formatMs (- diffToRallyStartMs r))
        @ (if beforeMarch r then '' (before March)'' else [])
      else
        (if diffMs r > 0 then formatMs (diffMs r)
         else ''since '' @ formatMs (- diffMs r)))"

definition landInText :: "Row \<Rightarrow> string" where
  "landInText r =
     (if landInMs r \<ge> 0 then formatMs (landInMs r) else ''-'' @ formatMs (- landInMs r))"

section \<open>Server: the room object (worker/src/index.ts)\<close>

text \<open>
  The module constant \<open>DEFAULT_STATE\<close> holds one array object, \<open>players: []\<close>.
  \<open>{ ...DEFAULT_STATE, lastActiveAt: now }\<close> copies the reference, not the
  array, and \<open>PLAYER_ADD\<close> writes into the array it finds in
  \<open>this.data.players\<close> (\<open>push\<close>, \<open>players[idx] = ...\<close>).  So the reference
  held in \<open>this.data.players\<close> is part of the model: it is either the array of
  \<open>DEFAULT_STATE\<close>, shared by every room object of the module instance, or an
  array only this room object holds (made by \<open>filter\<close> or by reading the
  storage), given by its contents.
\<close>

datatype players_ref = SharedDefault | Own "Player list"

text \<open>
  What a room object sees: the contents of \<open>DEFAULT_STATE.players\<close>, the
  field \<open>this.data\<close> (\<open>null\<close> is \<open>None\<close>), and the value stored under the
  key \<open>"state"\<close> of the durable storage (stored by value).
\<close>

record World =
  DEFAULT_STATE_players :: "Player list"
  data :: "players_ref RoomState option"
  storage :: "Player list RoomState option"

text \<open>The module just loaded, the room never used.\<close>

definition initialWorld :: World where
  "initialWorld = \<lparr>DEFAULT_STATE_players = [], data = None, storage = None\<rparr>"

definition deref :: "World \<Rightarrow> players_ref \<Rightarrow> Player list" where
  "deref w r = (case r of SharedDefault \<Rightarrow> DEFAULT_STATE_players w | Own ps \<Rightarrow> ps)"

text \<open>The state by value, as \<open>JSON.stringify\<close> and \<open>storage.put\<close> read it.\<close>

definition serialise :: "World \<Rightarrow> players_ref RoomState \<Rightarrow> Player list RoomState" where
  "serialise w d =
     \<lparr>players = deref w (players d), rally = rally d, lastActiveAt = lastActiveAt d\<rparr>"

text \<open>\<open>this.data = stored\<close>: the stored value, its array held by this object alone.\<close>

definition deserialise :: "Player list RoomState \<Rightarrow> players_ref RoomState" where
  "deserialise st =
     \<lparr>players = Own (players st), rally = rally st, lastActiveAt = lastActiveAt st\<rparr>"

definition MAX_AGE_MS :: number where
  "MAX_AGE_MS = 6 * 60 * 60 * 1000"

definition persist :: "World \<Rightarrow> World" where
  "persist w =
     (case data w of
        None \<Rightarrow> w
      | Some d \<Rightarrow> w\<lparr>storage := Some (serialise w d)\<rparr>)"

text \<open>
  \<open>ensureLoaded()\<close>, with \<open>now\<close> the value \<open>Date.now()\<close> returns.
  \<open>!stored.lastActiveAt\<close> holds for a missing field and for \<open>0\<close>.
\<close>

definition ensureLoaded :: "number \<Rightarrow> World \<Rightarrow> World" where
  "ensureLoaded now w =
     (case data w of
        Some _ \<Rightarrow> w
      | None \<Rightarrow>
          (let fresh = \<lparr>players = SharedDefault, rally = None, lastActiveAt = Some now\<rparr>
           in case storage w of
                Some stored \<Rightarrow>
                  (if (case lastActiveAt stored of
                         None \<Rightarrow> True
                       | Some t \<Rightarrow> t = 0 \<or> now - t > MAX_AGE_MS)
                   then persist (w\<lparr>data := Some fresh\<rparr>)
                   else w\<lparr>data := Some (deserialise stored)\<rparr>)
              | None \<Rightarrow> persist (w\<lparr>data := Some fresh\<rparr>)))"

text \<open>
  \<open>ClientMsg\<close> as parsed.  A missing payload of \<open>PLAYER_ADD\<close> is \<open>None\<close>;
  a missing payload of \<open>PLAYER_REMOVE\<close> and a missing \<open>starterId\<close> are the
  empty string (falsy alike).  \<open>RALLY_START\<close> carries \<open>starterId\<close>,
  \<open>launchAt\<close>, \<open>rallyDurationMs\<close>, \<open>preDelayMs\<close>; \<open>TIME_SYNC_REQUEST\<close>
  carries \<open>payload?.t0\<close>.  \<open>OTHER\<close> is a message of any other type.
\<close>

datatype ClientMsg =
    STATE_REQUEST
  | PLAYER_ADD "Player option"
  | PLAYER_REMOVE string
  | RALLY_START string jsval jsval jsval
  | RALLY_END
  | TIME_SYNC_REQUEST jsval
  | OTHER

datatype ServerMsg =
    STATE "Player list RoomState"
  | TIME_SYNC_RESPONSE number number number

text \<open>What a handler sends: to the socket of the request, or to every socket.\<close>

datatype Effect = Send ServerMsg | Broadcast ServerMsg

text \<open>
  The values \<open>Date.now()\<close> returns during one call of \<open>handleMessage\<close>: in
  \<open>ensureLoaded\<close>, for \<open>lastActiveAt\<close>, and the first and second call in the
  branch of the message.
\<close>

record Clock =
  nowLoad :: number
  nowActive :: number
  nowA :: number
  nowB :: number

definition broadcast :: "World \<Rightarrow> Effect list" where
  "broadcast w =
     (case data w of
        None \<Rightarrow> []
      | Some d \<Rightarrow> [Broadcast (STATE (serialise w d))])"

text \<open>\<open>xs.findIndex(f)\<close>, with \<open>-1\<close> as \<open>None\<close>.\<close>

fun findIndex :: "('a \<Rightarrow> bool) \<Rightarrow> 'a list \<Rightarrow> nat option" where
  "findIndex f [] = None"
| "findIndex f (x # xs) =
     (if f x then Some 0 else map_option Suc (findIndex f xs))"

text \<open>Writing new contents into the array object a reference denotes.\<close>

definition write_array :: "players_ref \<Rightarrow> Player list \<Rightarrow> World \<Rightarrow> World" where
  "write_array r ps w =
     (case r of
        SharedDefault \<Rightarrow> w\<lparr>DEFAULT_STATE_players := ps\<rparr>
      | Own _ \<Rightarrow> w\<lparr>data := map_option (\<lambda>d. d\<lparr>players := Own ps\<rparr>) (data w)\<rparr>)"

text \<open>
  The launch instant of \<open>RALLY_START\<close>; \<open>None\<close> where the handler returns
  without a rally.  \<open>JNum l\<close> is exactly the case
  \<open>typeof launchAt === "number" && Number.isFinite(launchAt)\<close>.
\<close>

definition computedLaunchAt :: "number \<Rightarrow> jsval \<Rightarrow> jsval \<Rightarrow> jsval \<Rightarrow> number option" where
  "computedLaunchAt dateNow launchAt' rallyDurationMs preDelayMs =
     (case launchAt' of
        JNum l \<Rightarrow> Some l
      | _ \<Rightarrow>
          (case (Number rallyDurationMs, Number (nullish preDelayMs (JNum 0))) of
             (JNum durationMs, JNum delayMs) \<Rightarrow>
               (if durationMs < 0 then None
                else if delayMs < 0 then None
                else Some (dateNow + delayMs + durationMs))
           | _ \<Rightarrow> None))"

text \<open>\<open>handleMessage(ws, raw)\<close>; \<open>raw\<close> is \<open>None\<close> when \<open>JSON.parse\<close> throws.\<close>

definition handleMessage :: "Clock \<Rightarrow> ClientMsg option \<Rightarrow> World \<Rightarrow> World \<times> Effect list" where
  "handleMessage clk raw w0 =
     (let w1 = ensureLoaded (nowLoad clk) w0
      in case data w1 of
           None \<Rightarrow> (w1, [])
         | Some d0 \<Rightarrow>
             (let d = d0\<lparr>lastActiveAt := Some (nowActive clk)\<rparr>;
                  w = w1\<lparr>data := Some d\<rparr>
              in case raw of
                   None \<Rightarrow> (w, [])
                 | Some STATE_REQUEST \<Rightarrow> (w, [Send (STATE (serialise w d))])
                 | Some (PLAYER_ADD payload) \<Rightarrow>
                     (case payload of
                        None \<Rightarrow> (w, [])
                      | Some p \<Rightarrow>
                          if id' p = [] then (w, [])
                          else
                            (let ps = deref w (players d);
                                 ps' = (case findIndex (\<lambda>q. id' q = id' p) ps of
                                          Some idx \<Rightarrow> ps[idx := p]
                                        | None \<Rightarrow> ps @ [p]);
                                 w' = persist (write_array (players d) ps' w)
                             in (w', broadcast w')))
                 | Some (PLAYER_REMOVE i) \<Rightarrow>
                     if i = [] then (w, [])
                     else
                       (let ps' = filter (\<lambda>p. id' p \<noteq> i) (deref w (players d));
                            d1 = d\<lparr>players := Own ps'\<rparr>;
                            d2 = (case rally d1 of
                                    Some r \<Rightarrow> if starterId r = i then d1\<lparr>rally := None\<rparr> else d1
                                  | None \<Rightarrow> d1);
                            w' = persist (w\<lparr>data := Some d2\<rparr>)
                        in (w', broadcast w'))
                 | Some (RALLY_START sid launchAt' rallyDurationMs preDelayMs) \<Rightarrow>
                     if sid = [] then (w, [])
                     else
                       (case computedLaunchAt (nowA clk) launchAt' rallyDurationMs preDelayMs of
                          None \<Rightarrow> (w, [])
                        | Some l \<Rightarrow>
                            (let d1 = d\<lparr>rally := Some \<lparr>starterId = sid, Rally.launchAt = l\<rparr>\<rparr>;
                                 w' = persist (w\<lparr>data := Some d1\<rparr>)
                             in (w', broadcast w')))
                 | Some RALLY_END \<Rightarrow>
                     (let w' = persist (w\<lparr>data := Some (d\<lparr>rally := None\<rparr>)\<rparr>)
                      in (w', broadcast w'))
                 | Some (TIME_SYNC_REQUEST v) \<Rightarrow>
                     (case v of
                        JNum a \<Rightarrow> (w, [Send (TIME_SYNC_RESPONSE a (nowA clk) (nowB clk))])
                      | _ \<Rightarrow> (w, []))
                 | Some OTHER \<Rightarrow> (w, [])))"

text \<open>
  What happens to a room: a message is handled; a request arrives (\<open>fetch\<close>
  calls \<open>ensureLoaded\<close> and changes nothing else); or a new room object is
  constructed for it (\<open>this.data = null\<close>) while the module instance and the
  storage live on.
\<close>

datatype Event = Message Clock "ClientMsg option" | Fetch number | NewInstance

fun step :: "Event \<Rightarrow> World \<Rightarrow> World" where
  "step (Message clk raw) w = fst (handleMessage clk raw w)"
| "step (Fetch dateNow) w = ensureLoaded dateNow w"
| "step NewInstance w = w\<lparr>data := None\<rparr>"

fun run :: "Event list \<Rightarrow> World \<Rightarrow> World" where
  "run [] w = w"
| "run (e # es) w = run es (step e w)"

text \<open>The state a \<open>STATE\<close> message would carry now; \<open>None\<close> before the first load.\<close>

definition current :: "World \<Rightarrow> Player list RoomState option" where
  "current w = map_option (serialise w) (data w)"

section \<open>Predicates on room states\<close>

definition ids :: "Player list \<Rightarrow> string set" where
  "ids ps = id' ` set ps"

text \<open>The rally, when there is one, names a player of the state.\<close>

definition rally_ok :: "Player list RoomState \<Rightarrow> bool" where
  "rally_ok st = (case rally st of None \<Rightarrow> True | Some r \<Rightarrow> starterId r \<in> ids (players st))"

definition world_ok :: "World \<Rightarrow> bool" where
  "world_ok w =
     ((case current w of None \<Rightarrow> True | Some st \<Rightarrow> rally_ok st) \<and>
      (case storage w of None \<Rightarrow> True | Some st \<Rightarrow> rally_ok st))"

text \<open>Every rally held in memory or in the storage has a non-empty \<open>starterId\<close>.\<close>

definition world_named :: "World \<Rightarrow> bool" where
  "world_named w =
     ((case data w of
         None \<Rightarrow> True
       | Some d \<Rightarrow> (case rally d of None \<Rightarrow> True | Some r \<Rightarrow> starterId r \<noteq> [])) \<and>
      (case storage w of
         None \<Rightarrow> True
       | Some st \<Rightarrow> (case rally st of None \<Rightarrow> True | Some r \<Rightarrow> starterId r \<noteq> [])))"

text \<open>
  A \<open>RALLY_START\<close> that sets a rally names a player of the state its
  handler works on (the state after \<open>ensureLoaded\<close>); a \<open>RALLY_START\<close>
  that returns early, and every other event, passes.
\<close>

fun start_known :: "Event \<Rightarrow> World \<Rightarrow> bool" where
  "start_known (Message clk (Some (RALLY_START sid la dur pre))) w =
     (sid = [] \<or> computedLaunchAt (nowA clk) la dur pre = None \<or>
      (case current (ensureLoaded (nowLoad clk) w) of
         None \<Rightarrow> False
       | Some st \<Rightarrow> sid \<in> ids (players st)))"
| "start_known e w = True"

fun starts_known :: "Event list \<Rightarrow> World \<Rightarrow> bool" where
  "starts_known [] w = True"
| "starts_known (e # es) w = (start_known e w \<and> starts_known es (step e w))"

section \<open>Example inputs\<close>

text \<open>
  The estimator after five replies of a burst, with round-trip times
  80, 45, 120, 45 and 200 ms.
\<close>

definition burst5 :: SyncState where
  "burst5 = \<lparr>syncSamplesRef =
     [\<lparr>offsetMs = 11, rttMs = 80, atTs = 1000\<rparr>, \<lparr>offsetMs = 12, rttMs = 45, atTs = 1250\<rparr>,
      \<lparr>offsetMs = 13, rttMs = 120, atTs = 1500\<rparr>, \<lparr>offsetMs = 14, rttMs = 45, atTs = 1750\<rparr>,
      \<lparr>offsetMs = 15, rttMs = 200, atTs = 2000\<rparr>],
     offsetRef = 12, timeOffsetMs = 12, bestRttMs = Some 45, lastSyncAt = Some 2000\<rparr>"

text \<open>Two players, and a clock that reads the same instant four times.\<close>

definition ann :: Player where
  "ann = \<lparr>id' = ''a'', name = ''Ann'', marchMs = 30000\<rparr>"

definition bob :: Player where
  "bob = \<lparr>id' = ''b'', name = ''Bob'', marchMs = 50000\<rparr>"

definition clockAt :: "number \<Rightarrow> Clock" where
  "clockAt t = \<lparr>nowLoad = t, nowActive = t, nowA = t, nowB = t\<rparr>"

text \<open>
  A replica with the two players, marching 30 s and 50 s, and a rally started
  by the first that launches at instant 1000000.
\<close>

definition exampleState :: "Player list RoomState" where
  "exampleState =
     \<lparr>players = [ann, bob],
      rally = Some \<lparr>starterId = ''a'', Rally.launchAt = 1000000\<rparr>,
      lastActiveAt = Some 700000\<rparr>"

text \<open>
  Three histories of a room.  \<open>exampleEvents\<close>: two players join and the
  first starts a rally.  \<open>ghostEvents\<close>: a rally is started for an id no
  player has, then two players join.  \<open>expiryEvents\<close>: a player joins and
  is removed, then the room object is constructed anew.
\<close>

definition exampleEvents :: "Event list" where
  "exampleEvents =
     [Message (clockAt 1700000000000) (Some (PLAYER_ADD (Some ann))),
      Message (clockAt 1700000001000) (Some (PLAYER_ADD (Some bob))),
      Message (clockAt 1700000002000)
        (Some (RALLY_START ''a'' JUndefined (JNum 300000) (JNum 10000)))]"

definition ghostEvents :: "Event list" where
  "ghostEvents =
     [Message (clockAt 1700000000000)
        (Some (RALLY_START ''ghost'' JUndefined (JNum 300000) (JNum 10000))),
      Message (clockAt 1700000001000) (Some (PLAYER_ADD (Some ann))),
      Message (clockAt 1700000002000) (Some (PLAYER_ADD (Some bob)))]"

definition expiryEvents :: "Event list" where
  "expiryEvents =
     [Message (clockAt 1700000000000) (Some (PLAYER_ADD (Some ann))),
      Message (clockAt 1700000001000) (Some (PLAYER_REMOVE ''a'')),
      NewInstance]"

section \<open>The sample window and the operative offset\<close>

lemma slice_from_last5: "slice_from (- int SYNC_SAMPLE_COUNT + 1) xs = drop (length xs - 5) xs"
  by (auto simp: slice_from_def SYNC_SAMPLE_COUNT_def Let_def max_def intro: arg_cong2[where f=drop])


lemma syncSamples_setOffsetSample:
  "syncSamplesRef (setOffsetSample off rtt ts s) =
     drop (length (syncSamplesRef s) - 5) (syncSamplesRef s) @ [\<lparr>offsetMs = off, rttMs = rtt, atTs = ts\<rparr>]"
  unfolding setOffsetSample_def slice_from_last5 by (simp add: Let_def split: option.split)

lemma foldl_min_rtt:
  fixes f :: "ClockSyncSample \<Rightarrow> ClockSyncSample \<Rightarrow> ClockSyncSample"
  defines "f \<equiv> (\<lambda>m next. if rttMs next < rttMs m then next else m)"
  shows "(foldl f m xs = m \<and> (\<forall>j<length xs. rttMs m \<le> rttMs (xs ! j))) \<or>
         (\<exists>i<length xs. foldl f m xs = xs ! i \<and> rttMs (xs ! i) < rttMs m \<and>
            (\<forall>j<length xs. rttMs (xs ! i) \<le> rttMs (xs ! j)) \<and>
            (\<forall>j<i. rttMs (xs ! i) < rttMs (xs ! j)))"
proof (induction xs arbitrary: m)
  case Nil
  then show ?case by simp
next
  case (Cons x xs)
  show ?case
  proof (cases "rttMs x < rttMs m")
    case True
    then have step: "foldl f m (x # xs) = foldl f x xs" by (simp add: f_def)
    from Cons.IH[of x] show ?thesis
    proof (elim disjE conjE exE)
      assume a: "foldl f x xs = x" and b: "\<forall>j<length xs. rttMs x \<le> rttMs (xs ! j)"
      have "\<forall>j<length (x # xs). rttMs x \<le> rttMs ((x # xs) ! j)"
        using b by (auto simp: nth_Cons split: nat.split)
      with a step True show ?thesis
        by (intro disjI2 exI[of _ 0]) simp
    next
      fix i
      assume i: "i < length xs" and a: "foldl f x xs = xs ! i" and lt: "rttMs (xs ! i) < rttMs x"
        and mn: "\<forall>j<length xs. rttMs (xs ! i) \<le> rttMs (xs ! j)"
        and fst: "\<forall>j<i. rttMs (xs ! i) < rttMs (xs ! j)"
      have 1: "\<forall>j<length (x # xs). rttMs (xs ! i) \<le> rttMs ((x # xs) ! j)"
        using mn lt by (auto simp: nth_Cons split: nat.split)
      have 2: "\<forall>j<Suc i. rttMs (xs ! i) < rttMs ((x # xs) ! j)"
        using fst lt by (auto simp: nth_Cons split: nat.split)
      show ?thesis
        using i a lt True step 1 2 by (intro disjI2 exI[of _ "Suc i"]) auto
    qed
  next
    case False
    then have step: "foldl f m (x # xs) = foldl f m xs" by (simp add: f_def)
    from Cons.IH[of m] show ?thesis
    proof (elim disjE conjE exE)
      assume a: "foldl f m xs = m" and b: "\<forall>j<length xs. rttMs m \<le> rttMs (xs ! j)"
      have "\<forall>j<length (x # xs). rttMs m \<le> rttMs ((x # xs) ! j)"
        using b False by (auto simp: nth_Cons split: nat.split)
      with a step show ?thesis by simp
    next
      fix i
      assume i: "i < length xs" and a: "foldl f m xs = xs ! i" and lt: "rttMs (xs ! i) < rttMs m"
        and mn: "\<forall>j<length xs. rttMs (xs ! i) \<le> rttMs (xs ! j)"
        and fst: "\<forall>j<i. rttMs (xs ! i) < rttMs (xs ! j)"
      have 1: "\<forall>j<length (x # xs). rttMs (xs ! i) \<le> rttMs ((x # xs) ! j)"
        using mn lt False by (auto simp: nth_Cons split: nat.split)
      have 2: "\<forall>j<Suc i. rttMs (xs ! i) < rttMs ((x # xs) ! j)"
        using fst lt False by (auto simp: nth_Cons split: nat.split)
      show ?thesis
        using i a lt step 1 2 by (intro disjI2 exI[of _ "Suc i"]) auto
    qed
  qed
qed

lemma best_of_first_min:
  assumes "samples \<noteq> []"
  shows "\<exists>i<length samples. best_of samples = Some (samples ! i) \<and>
           (\<forall>j<length samples. rttMs (samples ! i) \<le> rttMs (samples ! j)) \<and>
           (\<forall>j<i. rttMs (samples ! i) < rttMs (samples ! j))"
proof -
  obtain s0 rest where sr: "samples = s0 # rest" using assms by (cases samples) auto
  let ?f = "\<lambda>m next. if rttMs next < rttMs m then next else (m::ClockSyncSample)"
  have b: "best_of samples = Some (foldl ?f s0 rest)"
    by (simp add: best_of_def sr)
  from foldl_min_rtt[of s0 rest] show ?thesis
  proof (elim disjE conjE exE)
    assume a: "foldl ?f s0 rest = s0" and m: "\<forall>j<length rest. rttMs s0 \<le> rttMs (rest ! j)"
    have "\<forall>j<length samples. rttMs (samples ! 0) \<le> rttMs (samples ! j)"
      using m by (auto simp: sr nth_Cons split: nat.split)
    then show ?thesis using a b by (intro exI[of _ 0]) (simp add: sr)
  next
    fix i
    assume i: "i < length rest" and a: "foldl ?f s0 rest = rest ! i" and lt: "rttMs (rest ! i) < rttMs s0"
      and mn: "\<forall>j<length rest. rttMs (rest ! i) \<le> rttMs (rest ! j)"
      and fst: "\<forall>j<i. rttMs (rest ! i) < rttMs (rest ! j)"
    have 1: "\<forall>j<length samples. rttMs (rest ! i) \<le> rttMs (samples ! j)"
      using mn lt by (auto simp: sr nth_Cons split: nat.split)
    have 2: "\<forall>j<Suc i. rttMs (rest ! i) < rttMs (samples ! j)"
      using fst lt by (auto simp: sr nth_Cons split: nat.split)
    show ?thesis
      using i a b 1 2 by (intro exI[of _ "Suc i"]) (auto simp: sr)
  qed
qed

lemma best_of_order_independent:
  assumes "mset w1 = mset w2"
    and uniq: "\<forall>a\<in>set w1. \<forall>b\<in>set w1. rttMs a = rttMs b \<longrightarrow> a = b"
  shows "best_of w1 = best_of w2"
proof (cases "w1 = []")
  case True
  then show ?thesis using assms by simp
next
  case False
  then have ne2: "w2 \<noteq> []" using assms(1) by auto
  have st: "set w1 = set w2" using assms(1) by (metis set_mset_mset)
  from best_of_first_min[OF False] obtain i where
    i: "i < length w1" "best_of w1 = Some (w1 ! i)" "\<forall>j<length w1. rttMs (w1 ! i) \<le> rttMs (w1 ! j)"
    by blast
  from best_of_first_min[OF ne2] obtain k where
    k: "k < length w2" "best_of w2 = Some (w2 ! k)" "\<forall>j<length w2. rttMs (w2 ! k) \<le> rttMs (w2 ! j)"
    by blast
  have a: "w1 ! i \<in> set w1" and b: "w2 ! k \<in> set w1" using i k st by auto
  have "rttMs (w1 ! i) \<le> rttMs (w2 ! k)" using i(3) b by (metis in_set_conv_nth)
  moreover have "rttMs (w2 ! k) \<le> rttMs (w1 ! i)" using k(3) a st by (metis in_set_conv_nth)
  ultimately have "w1 ! i = w2 ! k" using uniq a b by force
  then show ?thesis using i k by simp
qed


lemma setOffsetSample_best:
  "\<exists>b. best_of (syncSamplesRef (setOffsetSample off rtt ts s)) = Some b \<and>
       offsetRef (setOffsetSample off rtt ts s) = offsetMs b \<and>
       timeOffsetMs (setOffsetSample off rtt ts s) = offsetMs b \<and>
       bestRttMs (setOffsetSample off rtt ts s) = Some (rttMs b) \<and>
       lastSyncAt (setOffsetSample off rtt ts s) = Some ts"
proof -
  let ?w = "drop (length (syncSamplesRef s) - 5) (syncSamplesRef s) @ [\<lparr>offsetMs = off, rttMs = rtt, atTs = ts\<rparr>]"
  have "?w \<noteq> []" by simp
  then obtain b where b: "best_of ?w = Some b"
    using best_of_first_min[of ?w] by blast
  show ?thesis
    unfolding setOffsetSample_def slice_from_last5 using b by (simp add: Let_def)
qed

lemma handleTimeSyncResponse_cases:
  "handleTimeSyncResponse t3 p s = s \<or>
   (\<exists>off rtt. handleTimeSyncResponse t3 p s = setOffsetSample off rtt t3 s)"
proof (cases p)
  case None
  then show ?thesis by (simp add: handleTimeSyncResponse_def)
next
  case (Some q)
  then show ?thesis
    by (cases "t0 q"; cases "t1 q"; cases "t2 q")
       (auto simp: handleTimeSyncResponse_def Let_def)
qed

lemma operative_offset_invariant:
  "(let s = foldl (\<lambda>s (t3, p). handleTimeSyncResponse t3 p s) initialSyncState replies in
      (syncSamplesRef s = [] \<and> offsetRef s = 0) \<or>
      (\<exists>b. best_of (syncSamplesRef s) = Some b \<and> offsetRef s = offsetMs b))"
proof (induction replies rule: rev_induct)
  case Nil
  then show ?case by (simp add: initialSyncState_def)
next
  case (snoc x xs)
  obtain t3 p where x: "x = (t3, p)" by (cases x)
  let ?s = "foldl (\<lambda>s (t3, p). handleTimeSyncResponse t3 p s) initialSyncState xs"
  from handleTimeSyncResponse_cases[of t3 p ?s] show ?case
  proof
    assume "handleTimeSyncResponse t3 p ?s = ?s"
    then show ?thesis using snoc.IH by (simp add: x Let_def)
  next
    assume "\<exists>off rtt. handleTimeSyncResponse t3 p ?s = setOffsetSample off rtt t3 ?s"
    then obtain off rtt where h: "handleTimeSyncResponse t3 p ?s = setOffsetSample off rtt t3 ?s"
      by blast
    from setOffsetSample_best[of off rtt t3 ?s] show ?thesis
      by (auto simp: x Let_def h)
  qed
qed

lemma burst6_window:
  "syncSamplesRef (setOffsetSample 16 60 2250 burst5) =
     [\<lparr>offsetMs = 11, rttMs = 80, atTs = 1000\<rparr>, \<lparr>offsetMs = 12, rttMs = 45, atTs = 1250\<rparr>,
      \<lparr>offsetMs = 13, rttMs = 120, atTs = 1500\<rparr>, \<lparr>offsetMs = 14, rttMs = 45, atTs = 1750\<rparr>,
      \<lparr>offsetMs = 15, rttMs = 200, atTs = 2000\<rparr>, \<lparr>offsetMs = 16, rttMs = 60, atTs = 2250\<rparr>]"
  by (simp add: syncSamples_setOffsetSample burst5_def)

text \<open>
  Claim C2.  After every call of \<open>setOffsetSample\<close> the operative offset
  (\<open>offsetRef\<close>, and the state \<open>timeOffsetMs\<close>) is the offset of a sample of
  the retained window whose round-trip time is minimal in the window, and of
  the earliest such sample: every sample before it has a strictly larger
  round-trip time.  When no two different samples of the window have the same
  round-trip time, every reordering of the window selects a sample with that
  same offset.  After any sequence of replies, well-formed or not, the
  operative offset is \<open>0\<close> with an empty window or the offset of the sample
  \<open>best_of\<close> selects from the window.
\<close>

theorem operative_offset_is_first_min_rtt:
  "(let s' = setOffsetSample off rtt ts s; w = syncSamplesRef s' in
     (\<exists>i<length w.
        offsetRef s' = offsetMs (w ! i) \<and> timeOffsetMs s' = offsetMs (w ! i) \<and>
        bestRttMs s' = Some (rttMs (w ! i)) \<and>
        (\<forall>j<length w. rttMs (w ! i) \<le> rttMs (w ! j)) \<and>
        (\<forall>j<i. rttMs (w ! i) < rttMs (w ! j))) \<and>
     (\<forall>w'. mset w' = mset w \<and> (\<forall>a\<in>set w. \<forall>b\<in>set w. rttMs a = rttMs b \<longrightarrow> a = b)
        \<longrightarrow> (\<exists>b. best_of w' = Some b \<and> offsetRef s' = offsetMs b))) \<and>
   (\<forall>replies.
      let s = foldl (\<lambda>s (t3, p). handleTimeSyncResponse t3 p s) initialSyncState replies in
        (syncSamplesRef s = [] \<and> offsetRef s = 0) \<or>
        (\<exists>b. best_of (syncSamplesRef s) = Some b \<and> offsetRef s = offsetMs b))"
proof -
  let ?s' = "setOffsetSample off rtt ts s"
  let ?w = "syncSamplesRef ?s'"
  have ne: "?w \<noteq> []" by (simp add: syncSamples_setOffsetSample)
  from setOffsetSample_best[of off rtt ts s] obtain b where
    b: "best_of ?w = Some b" "offsetRef ?s' = offsetMs b" "timeOffsetMs ?s' = offsetMs b"
       "bestRttMs ?s' = Some (rttMs b)"
    by blast
  from best_of_first_min[OF ne] obtain i where
    i: "i < length ?w" "best_of ?w = Some (?w ! i)"
       "\<forall>j<length ?w. rttMs (?w ! i) \<le> rttMs (?w ! j)"
       "\<forall>j<i. rttMs (?w ! i) < rttMs (?w ! j)"
    by blast
  have bi: "b = ?w ! i" using b(1) i(2) by simp
  have first: "\<exists>i<length ?w.
        offsetRef ?s' = offsetMs (?w ! i) \<and> timeOffsetMs ?s' = offsetMs (?w ! i) \<and>
        bestRttMs ?s' = Some (rttMs (?w ! i)) \<and>
        (\<forall>j<length ?w. rttMs (?w ! i) \<le> rttMs (?w ! j)) \<and>
        (\<forall>j<i. rttMs (?w ! i) < rttMs (?w ! j))"
    using i b bi by blast
  have second: "\<forall>w'. mset w' = mset ?w \<and> (\<forall>a\<in>set ?w. \<forall>b\<in>set ?w. rttMs a = rttMs b \<longrightarrow> a = b)
        \<longrightarrow> (\<exists>b. best_of w' = Some b \<and> offsetRef ?s' = offsetMs b)"
  proof (intro allI impI, elim conjE)
    fix w'
    assume m: "mset w' = mset ?w" and u: "\<forall>a\<in>set ?w. \<forall>b\<in>set ?w. rttMs a = rttMs b \<longrightarrow> a = b"
    have "best_of ?w = best_of w'"
      using best_of_order_independent[OF m[symmetric] u] .
    with b(1) have "best_of w' = Some b" by simp
    then show "\<exists>b. best_of w' = Some b \<and> offsetRef ?s' = offsetMs b"
      using b(2) by blast
  qed
  have third: "\<forall>replies.
      let s = foldl (\<lambda>s (t3, p). handleTimeSyncResponse t3 p s) initialSyncState replies in
        (syncSamplesRef s = [] \<and> offsetRef s = 0) \<or>
        (\<exists>b. best_of (syncSamplesRef s) = Some b \<and> offsetRef s = offsetMs b)"
    using operative_offset_invariant by blast
  show ?thesis unfolding Let_def using first second third[unfolded Let_def] by blast
qed

theorem operative_offset_witness:
  "offsetRef (setOffsetSample 16 60 2250 burst5) = 12 \<and>
   bestRttMs (setOffsetSample 16 60 2250 burst5) = Some 45 \<and>
   syncSamplesRef (setOffsetSample 22 45 1250 (setOffsetSample 21 80 1000 initialSyncState)) =
     [\<lparr>offsetMs = 21, rttMs = 80, atTs = 1000\<rparr>, \<lparr>offsetMs = 22, rttMs = 45, atTs = 1250\<rparr>] \<and>
   (\<exists>b. best_of [\<lparr>offsetMs = 22, rttMs = 45, atTs = 1250\<rparr>, \<lparr>offsetMs = 21, rttMs = 80, atTs = 1000\<rparr>] = Some b \<and>
        offsetRef (setOffsetSample 22 45 1250 (setOffsetSample 21 80 1000 initialSyncState)) = offsetMs b \<and>
        offsetMs b = 22)"
proof -
  let ?s' = "setOffsetSample 16 60 2250 burst5"
  let ?w = "syncSamplesRef ?s'"
  from operative_offset_is_first_min_rtt[of 16 60 2250 burst5]
  obtain i where i: "i < length ?w" "offsetRef ?s' = offsetMs (?w ! i)"
      "bestRttMs ?s' = Some (rttMs (?w ! i))"
      "\<forall>j<length ?w. rttMs (?w ! i) \<le> rttMs (?w ! j)"
      "\<forall>j<i. rttMs (?w ! i) < rttMs (?w ! j)"
    unfolding Let_def by blast
  have len: "length ?w = 6" by (simp add: burst6_window)
  from i(1) len consider "i = 0" | "i = 1" | "i = 2" | "i = 3" | "i = 4" | "i = 5"
    by linarith
  then have "i = 1"
  proof cases
    case 1
    with i(4)[rule_format, of 1] show ?thesis by (simp add: burst6_window)
  next
    case 2
    then show ?thesis .
  next
    case 3
    with i(4)[rule_format, of 1] show ?thesis by (simp add: burst6_window)
  next
    case 4
    with i(5)[rule_format, of 1] show ?thesis by (simp add: burst6_window)
  next
    case 5
    with i(4)[rule_format, of 1] show ?thesis by (simp add: burst6_window)
  next
    case 6
    with i(4)[rule_format, of 1] show ?thesis by (simp add: burst6_window)
  qed
  then have first: "offsetRef ?s' = 12" "bestRttMs ?s' = Some 45"
    using i(2,3) by (simp_all add: burst6_window)
  let ?t = "setOffsetSample 21 80 1000 initialSyncState"
  let ?u = "setOffsetSample 22 45 1250 ?t"
  let ?w' = "[\<lparr>offsetMs = 22, rttMs = 45, atTs = 1250\<rparr>, \<lparr>offsetMs = 21, rttMs = 80, atTs = 1000\<rparr>]"
  have win: "syncSamplesRef ?u =
     [\<lparr>offsetMs = 21, rttMs = 80, atTs = 1000\<rparr>, \<lparr>offsetMs = 22, rttMs = 45, atTs = 1250\<rparr>]"
    by (simp add: syncSamples_setOffsetSample initialSyncState_def)
  have hyp: "mset ?w' = mset (syncSamplesRef ?u) \<and>
        (\<forall>a\<in>set (syncSamplesRef ?u). \<forall>b\<in>set (syncSamplesRef ?u). rttMs a = rttMs b \<longrightarrow> a = b)"
    unfolding win by auto
  from operative_offset_is_first_min_rtt[of 22 45 1250 ?t, unfolded Let_def] hyp
  obtain b where b: "best_of ?w' = Some b" "offsetRef ?u = offsetMs b"
    by blast
  have "best_of ?w' = Some \<lparr>offsetMs = 22, rttMs = 45, atTs = 1250\<rparr>"
    by (simp add: best_of_def)
  with b(1) have "offsetMs b = 22" by auto
  with b have second: "\<exists>b. best_of ?w' = Some b \<and> offsetRef ?u = offsetMs b \<and> offsetMs b = 22"
    by blast
  show ?thesis using first win second by blast
qed

text \<open>
  Claim C9.  The window \<open>setOffsetSample\<close> leaves never holds more than
  \<open>SYNC_SAMPLE_COUNT = 6\<close> samples.  A window of six loses exactly its oldest
  sample and gains the new one at the end; a shorter window loses nothing.
  After any sequence of samples, starting from the empty window, the window is
  the last six of them in order of arrival.
\<close>

theorem sample_window_bounded:
  "length (syncSamplesRef (setOffsetSample off rtt ts s)) \<le> SYNC_SAMPLE_COUNT \<and>
   (length (syncSamplesRef s) \<ge> SYNC_SAMPLE_COUNT - 1 \<longrightarrow>
      length (syncSamplesRef (setOffsetSample off rtt ts s)) = SYNC_SAMPLE_COUNT) \<and>
   (length (syncSamplesRef s) = SYNC_SAMPLE_COUNT \<longrightarrow>
      syncSamplesRef (setOffsetSample off rtt ts s) =
        tl (syncSamplesRef s) @ [\<lparr>offsetMs = off, rttMs = rtt, atTs = ts\<rparr>]) \<and>
   (length (syncSamplesRef s) < SYNC_SAMPLE_COUNT \<longrightarrow>
      syncSamplesRef (setOffsetSample off rtt ts s) =
        syncSamplesRef s @ [\<lparr>offsetMs = off, rttMs = rtt, atTs = ts\<rparr>]) \<and>
   (\<forall>xs. syncSamplesRef (foldl (\<lambda>st (a, b, c). setOffsetSample a b c st) initialSyncState xs) =
      drop (length xs - SYNC_SAMPLE_COUNT) (map (\<lambda>(a, b, c). \<lparr>offsetMs = a, rttMs = b, atTs = c\<rparr>) xs))"
proof -
  let ?n = "\<lparr>offsetMs = off, rttMs = rtt, atTs = ts\<rparr>"
  have w: "syncSamplesRef (setOffsetSample off rtt ts s) = drop (length (syncSamplesRef s) - 5) (syncSamplesRef s) @ [?n]"
    by (rule syncSamples_setOffsetSample)
  have 1: "length (syncSamplesRef (setOffsetSample off rtt ts s)) \<le> SYNC_SAMPLE_COUNT"
    by (simp add: w SYNC_SAMPLE_COUNT_def)
  have 2: "length (syncSamplesRef s) \<ge> SYNC_SAMPLE_COUNT - 1 \<longrightarrow>
      length (syncSamplesRef (setOffsetSample off rtt ts s)) = SYNC_SAMPLE_COUNT"
    by (simp add: w SYNC_SAMPLE_COUNT_def)
  have 3: "length (syncSamplesRef s) = SYNC_SAMPLE_COUNT \<longrightarrow>
      syncSamplesRef (setOffsetSample off rtt ts s) = tl (syncSamplesRef s) @ [?n]"
    by (simp add: w SYNC_SAMPLE_COUNT_def drop_Suc)
  have 4: "length (syncSamplesRef s) < SYNC_SAMPLE_COUNT \<longrightarrow>
      syncSamplesRef (setOffsetSample off rtt ts s) = syncSamplesRef s @ [?n]"
    by (simp add: w SYNC_SAMPLE_COUNT_def)
  have 5: "syncSamplesRef (foldl (\<lambda>st (a, b, c). setOffsetSample a b c st) initialSyncState xs) =
      drop (length xs - SYNC_SAMPLE_COUNT) (map (\<lambda>(a, b, c). \<lparr>offsetMs = a, rttMs = b, atTs = c\<rparr>) xs)" for xs
  proof (induction xs rule: rev_induct)
    case Nil
    then show ?case by (simp add: initialSyncState_def)
  next
    case (snoc x xs)
    obtain a b c where x: "x = (a, b, c)" by (cases x) auto
    have eq: "length xs - (length xs - 6 + 5) + (length xs - 6) = length xs - 5"
      by arith
    show ?case
      by (simp add: x syncSamples_setOffsetSample snoc.IH SYNC_SAMPLE_COUNT_def eq)
  qed
  show ?thesis using 1 2 3 4 5 by blast
qed

theorem sample_window_witness:
  "length (syncSamplesRef burst5) < SYNC_SAMPLE_COUNT \<and>
   length (syncSamplesRef (setOffsetSample 16 60 2250 burst5)) = SYNC_SAMPLE_COUNT \<and>
   syncSamplesRef (setOffsetSample 17 70 2500 (setOffsetSample 16 60 2250 burst5)) =
     [\<lparr>offsetMs = 12, rttMs = 45, atTs = 1250\<rparr>,
      \<lparr>offsetMs = 13, rttMs = 120, atTs = 1500\<rparr>, \<lparr>offsetMs = 14, rttMs = 45, atTs = 1750\<rparr>,
      \<lparr>offsetMs = 15, rttMs = 200, atTs = 2000\<rparr>, \<lparr>offsetMs = 16, rttMs = 60, atTs = 2250\<rparr>,
      \<lparr>offsetMs = 17, rttMs = 70, atTs = 2500\<rparr>]"
proof -
  have a: "length (syncSamplesRef burst5) < SYNC_SAMPLE_COUNT"
    by (simp add: burst5_def SYNC_SAMPLE_COUNT_def)
  have b: "length (syncSamplesRef burst5) \<ge> SYNC_SAMPLE_COUNT - 1"
    by (simp add: burst5_def SYNC_SAMPLE_COUNT_def)
  from sample_window_bounded[of 16 60 2250 burst5] a b
  have w: "syncSamplesRef (setOffsetSample 16 60 2250 burst5) =
             syncSamplesRef burst5 @ [\<lparr>offsetMs = 16, rttMs = 60, atTs = 2250\<rparr>]"
    and l: "length (syncSamplesRef (setOffsetSample 16 60 2250 burst5)) = SYNC_SAMPLE_COUNT"
    by blast+
  from sample_window_bounded[of 17 70 2500 "setOffsetSample 16 60 2250 burst5"] l
  have "syncSamplesRef (setOffsetSample 17 70 2500 (setOffsetSample 16 60 2250 burst5)) =
          tl (syncSamplesRef (setOffsetSample 16 60 2250 burst5)) @ [\<lparr>offsetMs = 17, rttMs = 70, atTs = 2500\<rparr>]"
    by blast
  then show ?thesis using a l w by (simp add: burst5_def)
qed

text \<open>
  Claim C4.  A reply whose \<open>t0\<close>, \<open>t1\<close>, \<open>t2\<close> are all finite numbers,
  received at \<open>t3\<close>, is folded in by one call of \<open>setOffsetSample\<close> with
  \<open>rtt = max(0, (t3 - t0) - (t2 - t1))\<close> and
  \<open>offset = ((t1 - t0) + (t2 - t3)) / 2\<close>: the window gains exactly that one
  sample.  A reply with a timestamp that is not a finite number, and a reply
  without payload, leave the whole estimator state as it was.
\<close>

theorem sync_reply_folded_or_discarded:
  "(Number_isFinite (t0 p) \<and> Number_isFinite (t1 p) \<and> Number_isFinite (t2 p) \<longrightarrow>
      (\<exists>a b c. t0 p = JNum a \<and> t1 p = JNum b \<and> t2 p = JNum c \<and>
         handleTimeSyncResponse t3 (Some p) s =
           setOffsetSample (((b - a) + (c - t3)) / 2) (max 0 ((t3 - a) - (c - b))) t3 s \<and>
         syncSamplesRef (handleTimeSyncResponse t3 (Some p) s) =
           drop (length (syncSamplesRef s) - (SYNC_SAMPLE_COUNT - 1)) (syncSamplesRef s) @
             [\<lparr>offsetMs = ((b - a) + (c - t3)) / 2, rttMs = max 0 ((t3 - a) - (c - b)), atTs = t3\<rparr>])) \<and>
   (\<not> (Number_isFinite (t0 p) \<and> Number_isFinite (t1 p) \<and> Number_isFinite (t2 p)) \<longrightarrow>
      handleTimeSyncResponse t3 (Some p) s = s) \<and>
   handleTimeSyncResponse t3 None s = s"
proof -
  have fin: "Number_isFinite v \<longleftrightarrow> (\<exists>x. v = JNum x)" for v
    by (cases v) auto
  have 1: "Number_isFinite (t0 p) \<and> Number_isFinite (t1 p) \<and> Number_isFinite (t2 p) \<longrightarrow>
      (\<exists>a b c. t0 p = JNum a \<and> t1 p = JNum b \<and> t2 p = JNum c \<and>
         handleTimeSyncResponse t3 (Some p) s =
           setOffsetSample (((b - a) + (c - t3)) / 2) (max 0 ((t3 - a) - (c - b))) t3 s \<and>
         syncSamplesRef (handleTimeSyncResponse t3 (Some p) s) =
           drop (length (syncSamplesRef s) - (SYNC_SAMPLE_COUNT - 1)) (syncSamplesRef s) @
             [\<lparr>offsetMs = ((b - a) + (c - t3)) / 2, rttMs = max 0 ((t3 - a) - (c - b)), atTs = t3\<rparr>])"
  proof
    assume "Number_isFinite (t0 p) \<and> Number_isFinite (t1 p) \<and> Number_isFinite (t2 p)"
    then obtain a b c where abc: "t0 p = JNum a" "t1 p = JNum b" "t2 p = JNum c"
      unfolding fin by blast
    have h: "handleTimeSyncResponse t3 (Some p) s =
           setOffsetSample (((b - a) + (c - t3)) / 2) (max 0 ((t3 - a) - (c - b))) t3 s"
      by (simp add: handleTimeSyncResponse_def abc Let_def)
    show "\<exists>a b c. t0 p = JNum a \<and> t1 p = JNum b \<and> t2 p = JNum c \<and>
         handleTimeSyncResponse t3 (Some p) s =
           setOffsetSample (((b - a) + (c - t3)) / 2) (max 0 ((t3 - a) - (c - b))) t3 s \<and>
         syncSamplesRef (handleTimeSyncResponse t3 (Some p) s) =
           drop (length (syncSamplesRef s) - (SYNC_SAMPLE_COUNT - 1)) (syncSamplesRef s) @
             [\<lparr>offsetMs = ((b - a) + (c - t3)) / 2, rttMs = max 0 ((t3 - a) - (c - b)), atTs = t3\<rparr>]"
      using abc h by (simp add: syncSamples_setOffsetSample SYNC_SAMPLE_COUNT_def)
  qed
  have 2: "\<not> (Number_isFinite (t0 p) \<and> Number_isFinite (t1 p) \<and> Number_isFinite (t2 p)) \<longrightarrow>
      handleTimeSyncResponse t3 (Some p) s = s"
    by (cases "t0 p"; cases "t1 p"; cases "t2 p") (simp_all add: handleTimeSyncResponse_def)
  have 3: "handleTimeSyncResponse t3 None s = s"
    by (simp add: handleTimeSyncResponse_def)
  show ?thesis using 1 2 3 by blast
qed

theorem sync_reply_witness:
  "Number_isFinite (JNum 1000) \<and> Number_isFinite (JNum 1500) \<and> Number_isFinite (JNum 1501) \<and>
   syncSamplesRef (handleTimeSyncResponse 1081 (Some \<lparr>t0 = JNum 1000, t1 = JNum 1500, t2 = JNum 1501\<rparr>) initialSyncState) =
     [\<lparr>offsetMs = 460, rttMs = 80, atTs = 1081\<rparr>] \<and>
   \<not> Number_isFinite JUndefined \<and>
   handleTimeSyncResponse 1081 (Some \<lparr>t0 = JNum 1000, t1 = JUndefined, t2 = JNum 1501\<rparr>) burst5 = burst5"
  using sync_reply_folded_or_discarded[of "\<lparr>t0 = JNum 1000, t1 = JNum 1500, t2 = JNum 1501\<rparr>" 1081 initialSyncState]
    sync_reply_folded_or_discarded[of "\<lparr>t0 = JNum 1000, t1 = JUndefined, t2 = JNum 1501\<rparr>" 1081 burst5]
  by (simp add: initialSyncState_def syncSamples_setOffsetSample)

section \<open>The rally schedule\<close>

lemma Player_eta: "\<lparr>id' = id' p, name = name p, marchMs = marchMs p\<rparr> = (p::Player)"
  by (cases p) simp

lemma rallyComputed_SomeD:
  assumes "rallyComputed st now delay = Some c"
  shows "\<exists>ra S. rally st = Some ra \<and> find (\<lambda>p. id' p = starterId ra) (players st) = Some S"
  using assms by (auto simp: rallyComputed_def split: option.splits)

lemma rallyComputed_fields:
  assumes "rally st = Some ra" and "find (\<lambda>p. id' p = starterId ra) (players st) = Some S"
  shows "\<exists>c. rallyComputed st now delay = Some c \<and>
           starter c = S \<and>
           Computed.launchAt c = Rally.launchAt ra \<and>
           Computed.rallyStartAt c = Rally.launchAt ra - delay * 60 * 1000 \<and>
           arrivalAt c = Rally.launchAt ra + marchMs S \<and>
           joinRemainingMs c = Rally.launchAt ra - now \<and>
           phase c = (if Rally.launchAt ra - now > 0 then JOIN else MARCH) \<and>
           rows c = sort_key startAt (map (\<lambda>p.
              \<lparr>id' = id' p, name = name p, marchMs = marchMs p,
               startAt = Rally.launchAt ra + marchMs S - marchMs p,
               rallyStartAt = Rally.launchAt ra + marchMs S - marchMs p - delay * 60 * 1000,
               diffMs = Rally.launchAt ra + marchMs S - marchMs p - now,
               diffToRallyStartMs = Rally.launchAt ra + marchMs S - marchMs p - delay * 60 * 1000 - now,
               diffFromLaunchMs = Rally.launchAt ra + marchMs S - marchMs p - Rally.launchAt ra,
               landInMs = Rally.launchAt ra + marchMs S - now\<rparr>) (players st))"
  by (simp add: rallyComputed_def Let_def assms)

lemma rallyComputed_row:
  assumes c: "rallyComputed st now delay = Some c" and r: "r \<in> set (rows c)"
  shows "\<exists>p\<in>set (players st). Player.truncate r = p \<and>
           startAt r = arrivalAt c - marchMs p \<and>
           Row.rallyStartAt r = startAt r - delay * 60 * 1000 \<and>
           diffMs r = startAt r - now \<and>
           diffToRallyStartMs r = Row.rallyStartAt r - now \<and>
           diffFromLaunchMs r = startAt r - Computed.launchAt c \<and>
           landInMs r = arrivalAt c - now \<and>
           arrivalAt c = Computed.launchAt c + marchMs (starter c)"
proof -
  from rallyComputed_SomeD[OF c] obtain ra S where
    ra: "rally st = Some ra" and S: "find (\<lambda>p. id' p = starterId ra) (players st) = Some S"
    by blast
  from rallyComputed_fields[OF ra S, of now delay] c r show ?thesis
    by (auto simp: Player.truncate_def Player_eta)
qed


lemma rows_players:
  assumes c: "rallyComputed st now delay = Some c"
  shows "mset (map Player.truncate (rows c)) = mset (players st)"
proof -
  from rallyComputed_SomeD[OF c] obtain ra S where
    ra: "rally st = Some ra" and S: "find (\<lambda>p. id' p = starterId ra) (players st) = Some S"
    by blast
  from rallyComputed_fields[OF ra S, of now delay] c
  obtain f where rw: "rows c = sort_key startAt (map f (players st))"
    and f: "\<And>p. Player.truncate (f p) = p"
    by (auto simp: Player.truncate_def Player_eta)
  show ?thesis
    by (simp add: rw image_mset.compositionality comp_def f)
qed

lemma exampleState_rows:
  "\<exists>c. rallyComputed exampleState now 5 = Some c \<and>
     map id' (rows c) = [''b'', ''a''] \<and> map startAt (rows c) = [980000, 1000000] \<and>
     map marchMs (rows c) = [50000, 30000]"
  by (simp add: rallyComputed_def exampleState_def ann_def bob_def Let_def)

text \<open>
  Claim C1.  When the rally is active and \<open>find\<close> yields its starter
  \<open>S\<close>, \<open>rallyComputed\<close> returns a result with
  \<open>arrivalAt = launchAt + S.marchMs\<close>; its rows are the players, one row
  each; every row has \<open>startAt = arrivalAt - marchMs\<close>, so for any two rows
  \<open>startAt + marchMs\<close> is the same instant; and the row of the starter
  exists and has \<open>startAt = launchAt\<close>.
\<close>

theorem landing_alignment:
  assumes "rally st = Some ra"
    and "find (\<lambda>p. id' p = starterId ra) (players st) = Some S"
  shows "\<exists>c. rallyComputed st now delay = Some c \<and>
           starter c = S \<and>
           arrivalAt c = Rally.launchAt ra + marchMs S \<and>
           mset (map Player.truncate (rows c)) = mset (players st) \<and>
           (\<forall>r\<in>set (rows c). startAt r = arrivalAt c - marchMs r) \<and>
           (\<forall>r\<in>set (rows c). \<forall>q\<in>set (rows c).
              startAt r + marchMs r = startAt q + marchMs q) \<and>
           (\<exists>r\<in>set (rows c). Player.truncate r = S \<and> startAt r = Rally.launchAt ra) \<and>
           (\<forall>r\<in>set (rows c). Player.truncate r = S \<longrightarrow> startAt r = Rally.launchAt ra)"
proof -
  from rallyComputed_fields[OF assms, of now delay] obtain c where
    c: "rallyComputed st now delay = Some c" and st: "starter c = S"
    and la: "Computed.launchAt c = Rally.launchAt ra"
    and ar: "arrivalAt c = Rally.launchAt ra + marchMs S"
    by blast
  have row: "startAt r = arrivalAt c - marchMs r" if "r \<in> set (rows c)" for r
    using rallyComputed_row[OF c that] by (auto simp: Player.truncate_def)
  have perm: "mset (map Player.truncate (rows c)) = mset (players st)"
    by (rule rows_players[OF c])
  have "S \<in> set (players st)"
    using assms(2) by (auto simp: find_Some_iff in_set_conv_nth)
  then have "S \<in># mset (map Player.truncate (rows c))"
    unfolding perm by simp
  then obtain r where r: "r \<in> set (rows c)" "Player.truncate r = S"
    by auto
  have own: "startAt r = Rally.launchAt ra" if "r \<in> set (rows c)" "Player.truncate r = S" for r
  proof -
    have "marchMs r = marchMs S" using that(2) by (auto simp: Player.truncate_def)
    then show ?thesis using row[OF that(1)] ar by simp
  qed
  have pair: "startAt r + marchMs r = startAt q + marchMs q"
    if "r \<in> set (rows c)" "q \<in> set (rows c)" for r q
    using row[OF that(1)] row[OF that(2)] by simp
  show ?thesis
    using c st ar perm row pair r own by blast
qed

theorem landing_alignment_witness:
  "rally exampleState = Some \<lparr>starterId = ''a'', Rally.launchAt = 1000000\<rparr> \<and>
   find (\<lambda>p. id' p = starterId \<lparr>starterId = ''a'', Rally.launchAt = 1000000\<rparr>) (players exampleState)
     = Some ann \<and>
   (\<exists>c. rallyComputed exampleState 990000 5 = Some c \<and> arrivalAt c = 1030000 \<and>
      map startAt (rows c) = [980000, 1000000] \<and> map marchMs (rows c) = [50000, 30000])"
proof -
  have a: "rally exampleState = Some \<lparr>starterId = ''a'', Rally.launchAt = 1000000\<rparr>"
    by (simp add: exampleState_def ann_def bob_def)
  have b: "find (\<lambda>p. id' p = starterId \<lparr>starterId = ''a'', Rally.launchAt = 1000000\<rparr>) (players exampleState)
     = Some ann"
    by (simp add: exampleState_def ann_def bob_def)
  from landing_alignment[OF a b, of 990000 5] obtain c where
    c: "rallyComputed exampleState 990000 5 = Some c"
    and ar0: "arrivalAt c = Rally.launchAt \<lparr>starterId = ''a'', Rally.launchAt = 1000000\<rparr> + marchMs ann"
    by blast
  from ar0 have ar: "arrivalAt c = 1030000" by (simp add: ann_def)
  from exampleState_rows[of 990000] c have
    "map startAt (rows c) = [980000, 1000000]" "map marchMs (rows c) = [50000, 30000]"
    by auto
  with a b c ar show ?thesis by simp
qed

text \<open>
  Claim C3.  For a rally whose starter is among the players, the phase is
  \<open>JOIN\<close> when \<open>now < launchAt\<close> and \<open>MARCH\<close> otherwise, whatever the
  configured duration; so once it is \<open>MARCH\<close> at some instant it is
  \<open>MARCH\<close> at every later instant.
\<close>

theorem phase_is_threshold_of_now:
  assumes "rally st = Some ra"
    and "find (\<lambda>p. id' p = starterId ra) (players st) = Some S"
  shows "(\<exists>c. rallyComputed st now delay = Some c \<and>
            phase c = (if now < Rally.launchAt ra then JOIN else MARCH)) \<and>
         (\<forall>t1 t2 d1 d2 c1 c2.
            t1 \<le> t2 \<and> rallyComputed st t1 d1 = Some c1 \<and> rallyComputed st t2 d2 = Some c2 \<and>
            phase c1 = MARCH \<longrightarrow> phase c2 = MARCH)"
proof -
  have ph: "\<exists>c. rallyComputed st t d = Some c \<and>
            phase c = (if t < Rally.launchAt ra then JOIN else MARCH)" for t d
    using rallyComputed_fields[OF assms, of t d] by auto
  have mono: "phase c2 = MARCH"
    if "t1 \<le> t2" "rallyComputed st t1 d1 = Some c1" "rallyComputed st t2 d2 = Some c2"
       "phase c1 = MARCH" for t1 t2 d1 d2 c1 c2
  proof -
    from ph[of t1 d1] that(2) have 1: "phase c1 = (if t1 < Rally.launchAt ra then JOIN else MARCH)"
      by auto
    from ph[of t2 d2] that(3) have 2: "phase c2 = (if t2 < Rally.launchAt ra then JOIN else MARCH)"
      by auto
    from 1 that(4) have "\<not> t1 < Rally.launchAt ra" by (auto split: if_splits)
    with that(1) have "\<not> t2 < Rally.launchAt ra" by linarith
    with 2 show ?thesis by simp
  qed
  show ?thesis using ph[of now delay] mono by blast
qed

theorem phase_witness:
  "rally exampleState = Some \<lparr>starterId = ''a'', Rally.launchAt = 1000000\<rparr> \<and>
   find (\<lambda>p. id' p = starterId \<lparr>starterId = ''a'', Rally.launchAt = 1000000\<rparr>) (players exampleState)
     = Some ann \<and>
   (\<exists>c. rallyComputed exampleState 996000 5 = Some c \<and> phase c = JOIN) \<and>
   (\<exists>c. rallyComputed exampleState 1000000 5 = Some c \<and> phase c = MARCH) \<and>
   (\<exists>c. rallyComputed exampleState 1001000 7 = Some c \<and> phase c = MARCH)"
proof -
  have a: "rally exampleState = Some \<lparr>starterId = ''a'', Rally.launchAt = 1000000\<rparr>"
    by (simp add: exampleState_def ann_def bob_def)
  have b: "find (\<lambda>p. id' p = starterId \<lparr>starterId = ''a'', Rally.launchAt = 1000000\<rparr>) (players exampleState)
     = Some ann"
    by (simp add: exampleState_def ann_def bob_def)
  note T = phase_is_threshold_of_now[OF a b]
  from conjunct1[OF T[of 996000 5]]
  have j: "\<exists>c. rallyComputed exampleState 996000 5 = Some c \<and> phase c = JOIN" by simp
  from conjunct1[OF T[of 1000000 5]]
  obtain c1 where c1: "rallyComputed exampleState 1000000 5 = Some c1" "phase c1 = MARCH"
    by auto
  from conjunct1[OF T[of 1001000 7]]
  obtain c2 where c2: "rallyComputed exampleState 1001000 7 = Some c2"
    by auto
  have "(1000000 :: number) \<le> 1001000" by simp
  with conjunct2[OF T[of 0 0], rule_format, of 1000000 1001000 5 c1 7 c2] c1 c2
  have "phase c2 = MARCH" by blast
  with a b j c1 c2 show ?thesis by blast
qed

lemma String_nat_last: "String_nat n \<noteq> [] \<and> last (String_nat n) = char_of (48 + n mod 10)"
proof (induction n rule: String_nat.induct)
  case (1 n)
  show ?case
    by (subst (1 2) String_nat.simps) (simp add: mod_mod_cancel)
qed

lemma digit_not_paren: "char_of (48 + (n::nat) mod 10) \<noteq> CHR '')''"
proof
  assume "char_of (48 + n mod 10) = CHR '')''"
  then have "of_char (char_of (48 + n mod 10) :: char) = (of_char CHR '')'' :: nat)"
    by simp
  then have e: "(48 + n mod 10) mod 256 = (41::nat)"
    by (simp add: of_char_of)
  have "n mod 10 < 10" by simp
  then have "48 + n mod 10 < 256" by linarith
  then have "(48 + n mod 10) mod 256 = 48 + n mod 10" by (rule mod_less)
  with e show False by linarith
qed

lemma formatMs_last: "formatMs ms \<noteq> [] \<and> last (formatMs ms) \<noteq> CHR '')''"
  using String_nat_last digit_not_paren
  by (simp add: formatMs_def Let_def pad2_def)

lemma pad2_0: "pad2 0 = ''00''"
  by code_simp

lemma formatMs_clamps: 
  assumes "ms \<le> 0"
  shows "formatMs ms = ''00:00''"
proof -
  have "ms / 1000 + 1 / 2 < 1" using assms by simp
  then have "Math_round (ms / 1000) \<le> 0"
    unfolding Math_round_def by (simp add: floor_le_iff)
  then have "nat (max 0 (Math_round (ms / 1000))) = 0" by simp
  then show ?thesis by (simp add: formatMs_def pad2_0)
qed

lemma countdownText_before_March:
  "(\<exists>pre. countdownText JOIN r = pre @ '' (before March)'') \<longleftrightarrow> beforeMarch r"
proof (cases "beforeMarch r")
  case True
  then show ?thesis by (simp add: countdownText_def)
next
  case False
  have "countdownText JOIN r \<noteq> pre @ '' (before March)''" for pre
  proof
    assume eq: "countdownText JOIN r = pre @ '' (before March)''"
    have "countdownText JOIN r = ''in '' @ formatMs (diffToRallyStartMs r) \<or>
          countdownText JOIN r = ''running '' @ formatMs (- diffToRallyStartMs r)"
      using False by (simp add: countdownText_def)
    then obtain x v where t: "countdownText JOIN r = x @ formatMs v"
      by blast
    have "last (countdownText JOIN r) = last (formatMs v)"
      unfolding t using formatMs_last[of v] by simp
    moreover have "last (countdownText JOIN r) = CHR '')''"
      unfolding eq by simp
    ultimately show False using formatMs_last[of v] by simp
  qed
  with False show ?thesis by blast
qed

text \<open>
  Claim C8.  In every row the remaining times are plain differences of
  instants, with their sign: \<open>diffMs = startAt - now\<close> is negative when
  \<open>startAt\<close> is in the past, and \<open>diffFromLaunchMs = startAt - launchAt\<close> is
  negative exactly when the player starts before the launch, which is exactly
  when the countdown cell of the join phase ends in \<open>(before March)\<close>.  The
  clamping is in \<open>formatMs\<close> alone, which shows \<open>00:00\<close> for every
  duration that is not positive.
\<close>

theorem signed_deltas_not_clamped:
  assumes "rallyComputed st now delay = Some c" and "r \<in> set (rows c)"
  shows "diffMs r = startAt r - now \<and>
         diffToRallyStartMs r = Row.rallyStartAt r - now \<and>
         landInMs r = arrivalAt c - now \<and>
         diffFromLaunchMs r = startAt r - Computed.launchAt c \<and>
         (startAt r < now \<longrightarrow> diffMs r < 0) \<and>
         (diffFromLaunchMs r < 0 \<longleftrightarrow> startAt r < Computed.launchAt c) \<and>
         (beforeMarch r \<longleftrightarrow> startAt r < Computed.launchAt c) \<and>
         ((\<exists>pre. countdownText JOIN r = pre @ '' (before March)'') \<longleftrightarrow>
            startAt r < Computed.launchAt c) \<and>
         (diffMs r \<le> 0 \<longrightarrow> formatMs (diffMs r) = ''00:00'')"
proof -
  from rallyComputed_row[OF assms] have
    d: "diffMs r = startAt r - now" and dr: "diffToRallyStartMs r = Row.rallyStartAt r - now"
    and dl: "diffFromLaunchMs r = startAt r - Computed.launchAt c"
    and li: "landInMs r = arrivalAt c - now"
    by blast+
  have neg: "diffFromLaunchMs r < 0 \<longleftrightarrow> startAt r < Computed.launchAt c"
    using dl by simp
  have past: "startAt r < now \<longrightarrow> diffMs r < 0" using d by simp
  have flag: "beforeMarch r \<longleftrightarrow> startAt r < Computed.launchAt c"
    using neg by (simp add: beforeMarch_def)
  have suffix_flag: "(\<exists>pre. countdownText JOIN r = pre @ '' (before March)'') \<longleftrightarrow>
            startAt r < Computed.launchAt c"
    using countdownText_before_March[of r] flag by simp
  have clamp: "diffMs r \<le> 0 \<longrightarrow> formatMs (diffMs r) = ''00:00''"
    using formatMs_clamps by blast
  show ?thesis using d dr li dl past neg flag suffix_flag clamp by blast
qed

theorem signed_deltas_witness:
  "\<exists>c r. rallyComputed exampleState 990000 5 = Some c \<and> r \<in> set (rows c) \<and>
     id' r = ''b'' \<and> startAt r = 980000 \<and> diffMs r = - 10000 \<and>
     diffFromLaunchMs r = - 20000 \<and> beforeMarch r \<and> formatMs (diffMs r) = ''00:00''"
proof -
  from exampleState_rows[of 990000] obtain c where
    c: "rallyComputed exampleState 990000 5 = Some c"
    and ids: "map id' (rows c) = [''b'', ''a'']"
    and sts: "map startAt (rows c) = [980000, 1000000]"
    by (elim exE conjE)
  from ids obtain r q where rq: "rows c = [r, q]" by auto
  have r: "r \<in> set (rows c)" by (simp add: rq)
  have idr: "id' r = ''b''" and sr: "startAt r = 980000"
    using ids sts by (simp_all add: rq)
  have la: "Computed.launchAt c = 1000000"
    using c by (auto simp: rallyComputed_def exampleState_def ann_def bob_def Let_def)
  note T = signed_deltas_not_clamped[OF c r]
  from T sr have d: "diffMs r = - 10000" by simp
  from T sr la have dl: "diffFromLaunchMs r = - 20000" by simp
  from T sr la have bm: "beforeMarch r" by simp
  from T d have f: "formatMs (diffMs r) = ''00:00''" by simp
  from d dl bm f
  have "rallyComputed exampleState 990000 5 = Some c \<and> r \<in> set (rows c) \<and>
     id' r = ''b'' \<and> startAt r = 980000 \<and> diffMs r = - 10000 \<and>
     diffFromLaunchMs r = - 20000 \<and> beforeMarch r \<and> formatMs (diffMs r) = ''00:00''"
    using c r idr sr by blast
  then show ?thesis by blast
qed

section \<open>The room object\<close>

lemmas eval_defs = handleMessage_def ensureLoaded_def persist_def broadcast_def serialise_def
  deserialise_def deref_def write_array_def computedLaunchAt_def initialWorld_def current_def
  clockAt_def ann_def bob_def Let_def MAX_AGE_MS_def

lemma run_exampleEvents:
  "run exampleEvents initialWorld =
     \<lparr>DEFAULT_STATE_players = [ann, bob],
      data = Some \<lparr>players = SharedDefault,
                   rally = Some \<lparr>starterId = ''a'', Rally.launchAt = 1700000312000\<rparr>,
                   lastActiveAt = Some 1700000002000\<rparr>,
      storage = Some \<lparr>players = [ann, bob],
                      rally = Some \<lparr>starterId = ''a'', Rally.launchAt = 1700000312000\<rparr>,
                      lastActiveAt = Some 1700000002000\<rparr>\<rparr>"
  by (simp add: exampleEvents_def eval_defs)

lemma world_ok_iff:
  "world_ok w \<longleftrightarrow>
     (\<forall>d r. data w = Some d \<and> rally d = Some r \<longrightarrow> starterId r \<in> ids (deref w (players d))) \<and>
     (\<forall>st r. storage w = Some st \<and> rally st = Some r \<longrightarrow> starterId r \<in> ids (players st))"
  by (auto simp: world_ok_def current_def rally_ok_def serialise_def split: option.splits)

lemma ensureLoaded_data: "\<exists>d. data (ensureLoaded t w) = Some d"
  by (auto simp: ensureLoaded_def persist_def Let_def split: option.splits)

lemma ensureLoaded_loaded: "data w = Some d \<Longrightarrow> ensureLoaded t w = w"
  by (simp add: ensureLoaded_def)

lemma ensureLoaded_ok: "world_ok w \<Longrightarrow> world_ok (ensureLoaded t w)"
  by (auto simp: world_ok_iff ensureLoaded_def persist_def serialise_def deserialise_def deref_def
        Let_def split: option.splits if_splits)

lemma findIndex_SomeD: "findIndex f xs = Some i \<Longrightarrow> i < length xs \<and> f (xs ! i)"
  by (induction xs arbitrary: i) (auto split: if_splits)

lemma findIndex_NoneD: "findIndex f xs = None \<Longrightarrow> \<forall>x\<in>set xs. \<not> f x"
  by (induction xs) (auto split: if_splits)

lemma ids_upsert:
  "ids (case findIndex (\<lambda>q. id' q = id' p) ps of Some idx \<Rightarrow> ps[idx := p] | None \<Rightarrow> ps @ [p])
     = insert (id' p) (ids ps)"
proof (cases "findIndex (\<lambda>q. id' q = id' p) ps")
  case None
  then show ?thesis by (simp add: ids_def)
next
  case (Some i)
  from findIndex_SomeD[OF Some] have i: "i < length ps" "id' (ps ! i) = id' p" by auto
  have "map id' (ps[i := p]) = map id' ps"
    using i by (simp add: map_update list_update_same_conv)
  then have "ids (ps[i := p]) = ids ps"
    unfolding ids_def by (metis set_map)
  moreover have "id' p \<in> ids ps"
    using i unfolding ids_def by (metis imageI nth_mem)
  ultimately show ?thesis using Some by auto
qed

lemma ids_filter: "ids (filter (\<lambda>p. id' p \<noteq> i) ps) = ids ps - {i}"
  by (auto simp: ids_def)

lemma handleMessage_ok:
  assumes ok: "world_ok w" and sk: "start_known (Message clk raw) w"
  shows "world_ok (fst (handleMessage clk raw w))"
proof -
  let ?w1 = "ensureLoaded (nowLoad clk) w"
  have ok1: "world_ok ?w1" by (rule ensureLoaded_ok[OF ok])
  obtain d0 where d0: "data ?w1 = Some d0" using ensureLoaded_data by blast
  show ?thesis
  proof (cases raw)
    case None
    then show ?thesis using ok1 d0
      by (auto simp: handleMessage_def Let_def world_ok_iff deref_def split: players_ref.splits)
  next
    case (Some msg)
    show ?thesis
    proof (cases msg)
      case STATE_REQUEST
      then show ?thesis using ok1 d0 Some
        by (auto simp: handleMessage_def Let_def world_ok_iff deref_def split: players_ref.splits)
    next
      case (PLAYER_ADD payload)
      show ?thesis
      proof (cases payload)
        case None
        then show ?thesis using ok1 d0 Some PLAYER_ADD
          by (auto simp: handleMessage_def Let_def world_ok_iff deref_def split: players_ref.splits)
      next
        case (Some p)
        then show ?thesis using ok1 d0 \<open>raw = Some msg\<close> PLAYER_ADD
          by (cases "players d0")
             (auto simp: handleMessage_def Let_def world_ok_iff deref_def persist_def
                write_array_def serialise_def ids_upsert)
      qed
    next
      case (PLAYER_REMOVE i)
      then show ?thesis using ok1 d0 Some
        by (cases "players d0")
           (auto simp: handleMessage_def Let_def world_ok_iff deref_def persist_def
              serialise_def ids_filter split: option.splits)
    next
      case (RALLY_START sid la dur pre)
      then show ?thesis using ok1 d0 Some sk
        by (cases "players d0")
           (auto simp: handleMessage_def Let_def world_ok_iff deref_def persist_def
              serialise_def current_def split: option.splits)
    next
      case RALLY_END
      then show ?thesis using ok1 d0 Some
        by (cases "players d0")
           (auto simp: handleMessage_def Let_def world_ok_iff deref_def persist_def
              serialise_def split: option.splits)
    next
      case (TIME_SYNC_REQUEST v)
      then show ?thesis using ok1 d0 Some
        by (cases v; cases "players d0")
           (auto simp: handleMessage_def Let_def world_ok_iff deref_def)
    next
      case OTHER
      then show ?thesis using ok1 d0 Some
        by (auto simp: handleMessage_def Let_def world_ok_iff deref_def split: players_ref.splits)
    qed
  qed
qed

lemma step_ok: "world_ok w \<Longrightarrow> start_known e w \<Longrightarrow> world_ok (step e w)"
proof (cases e)
  case (Message clk raw)
  assume "world_ok w" "start_known e w"
  then show ?thesis using handleMessage_ok[of w clk raw] Message by simp
next
  case (Fetch t)
  assume "world_ok w"
  then show ?thesis using ensureLoaded_ok[of w t] Fetch by simp
next
  case NewInstance
  assume "world_ok w"
  then show ?thesis using NewInstance by (auto simp: world_ok_iff deref_def)
qed

lemma run_ok: "world_ok w \<Longrightarrow> starts_known es w \<Longrightarrow> world_ok (run es w)"
  by (induction es arbitrary: w) (auto simp: step_ok)


lemma world_named_iff:
  "world_named w \<longleftrightarrow>
     (\<forall>d r. data w = Some d \<and> rally d = Some r \<longrightarrow> starterId r \<noteq> []) \<and>
     (\<forall>st r. storage w = Some st \<and> rally st = Some r \<longrightarrow> starterId r \<noteq> [])"
  by (auto simp: world_named_def split: option.splits)

lemma ensureLoaded_named: "world_named w \<Longrightarrow> world_named (ensureLoaded t w)"
  by (auto simp: world_named_iff ensureLoaded_def persist_def serialise_def deserialise_def
        Let_def split: option.splits if_splits)

lemma handleMessage_named:
  assumes ok: "world_named w"
  shows "world_named (fst (handleMessage clk raw w))"
proof -
  let ?w1 = "ensureLoaded (nowLoad clk) w"
  have ok1: "world_named ?w1" by (rule ensureLoaded_named[OF ok])
  obtain d0 where d0: "data ?w1 = Some d0" using ensureLoaded_data by blast
  show ?thesis
  proof (cases raw)
    case None
    then show ?thesis using ok1 d0
      by (auto simp: handleMessage_def Let_def world_named_iff)
  next
    case (Some msg)
    show ?thesis
    proof (cases msg)
      case STATE_REQUEST
      then show ?thesis using ok1 d0 Some
        by (auto simp: handleMessage_def Let_def world_named_iff)
    next
      case (PLAYER_ADD payload)
      then show ?thesis using ok1 d0 Some
        by (cases payload; cases "players d0")
           (auto simp: handleMessage_def Let_def world_named_iff persist_def
              write_array_def serialise_def)
    next
      case (PLAYER_REMOVE i)
      then show ?thesis using ok1 d0 Some
        by (auto simp: handleMessage_def Let_def world_named_iff persist_def
              serialise_def split: option.splits)
    next
      case (RALLY_START sid la dur pre)
      then show ?thesis using ok1 d0 Some
        by (auto simp: handleMessage_def Let_def world_named_iff persist_def
              serialise_def split: option.splits)
    next
      case RALLY_END
      then show ?thesis using ok1 d0 Some
        by (auto simp: handleMessage_def Let_def world_named_iff persist_def
              serialise_def split: option.splits)
    next
      case (TIME_SYNC_REQUEST v)
      then show ?thesis using ok1 d0 Some
        by (cases v) (auto simp: handleMessage_def Let_def world_named_iff)
    next
      case OTHER
      then show ?thesis using ok1 d0 Some
        by (auto simp: handleMessage_def Let_def world_named_iff)
    qed
  qed
qed

lemma step_named: "world_named w \<Longrightarrow> world_named (step e w)"
proof (cases e)
  case (Message clk raw)
  assume "world_named w"
  then show ?thesis using handleMessage_named[of w clk raw] Message by simp
next
  case (Fetch t)
  assume "world_named w"
  then show ?thesis using ensureLoaded_named[of w t] Fetch by simp
next
  case NewInstance
  assume "world_named w"
  then show ?thesis using NewInstance by (auto simp: world_named_iff)
qed

lemma run_named: "world_named w \<Longrightarrow> world_named (run es w)"
  by (induction es arbitrary: w) (auto simp: step_named)

lemma initialWorld_named: "world_named initialWorld"
  by (simp add: world_named_def initialWorld_def)

lemma initialWorld_ok: "world_ok initialWorld"
  by (simp add: world_ok_def initialWorld_def current_def)

lemma player_remove_effect:
  assumes i: "i \<noteq> []" and d0: "data (ensureLoaded (nowLoad clk) w) = Some d0"
  shows "\<exists>st'. current (fst (handleMessage clk (Some (PLAYER_REMOVE i)) w)) = Some st' \<and>
           snd (handleMessage clk (Some (PLAYER_REMOVE i)) w) = [Broadcast (STATE st')] \<and>
           storage (fst (handleMessage clk (Some (PLAYER_REMOVE i)) w)) = Some st' \<and>
           players st' = filter (\<lambda>p. id' p \<noteq> i) (deref (ensureLoaded (nowLoad clk) w) (players d0)) \<and>
           rally st' = (case rally d0 of None \<Rightarrow> None | Some r \<Rightarrow> if starterId r = i then None else Some r) \<and>
           lastActiveAt st' = Some (nowActive clk)"
  using i d0
  by (auto simp: handleMessage_def Let_def persist_def broadcast_def serialise_def current_def
        deref_def split: option.splits players_ref.splits)

lemma rallyComputed_dangling:
  assumes "rally rep = Some r" and "find (\<lambda>p. id' p = starterId r) (players rep) = None"
  shows "rallyComputed rep now delay = None"
    and "rallyComputed rep now delay = rallyComputed (rep\<lparr>rally := None\<rparr>) now delay"
  using assms by (simp_all add: rallyComputed_def)

text \<open>
  Claim C6.  In every state a room reaches from \<open>initialWorld\<close>, when the
  state \<open>handleMessage\<close> works on has a rally, handling \<open>PLAYER_REMOVE\<close>
  for that rally's \<open>starterId\<close> broadcasts a state without rally and without
  that player, and leaves it as the room's state.  On the client, a replica
  whose rally names no player of the replica gives \<open>rallyComputed = null\<close>,
  the result of the same replica without a rally.
\<close>

theorem starter_removal_ends_rally:
  assumes "current (ensureLoaded (nowLoad clk) (run es initialWorld)) = Some st"
    and "rally st = Some ra"
  shows "(\<exists>st'. current (fst (handleMessage clk (Some (PLAYER_REMOVE (starterId ra))) (run es initialWorld)))
                  = Some st' \<and>
               snd (handleMessage clk (Some (PLAYER_REMOVE (starterId ra))) (run es initialWorld))
                  = [Broadcast (STATE st')] \<and>
               rally st' = None \<and> starterId ra \<notin> ids (players st')) \<and>
         (\<forall>rep r now delay.
            rally rep = Some r \<and> find (\<lambda>p. id' p = starterId r) (players rep) = None \<longrightarrow>
              rallyComputed rep now delay = None \<and>
              rallyComputed rep now delay = rallyComputed (rep\<lparr>rally := None\<rparr>) now delay)"
proof -
  let ?w = "run es initialWorld"
  let ?w1 = "ensureLoaded (nowLoad clk) ?w"
  from assms(1) obtain d0 where d0: "data ?w1 = Some d0" and st: "st = serialise ?w1 d0"
    by (auto simp: current_def)
  have ra: "rally d0 = Some ra" using assms(2) st by (simp add: serialise_def)
  have "world_named ?w1"
    by (intro ensureLoaded_named run_named initialWorld_named)
  then have ne: "starterId ra \<noteq> []"
    using d0 ra by (auto simp: world_named_iff)
  from player_remove_effect[OF ne d0] obtain st' where
    st': "current (fst (handleMessage clk (Some (PLAYER_REMOVE (starterId ra))) ?w)) = Some st'"
      "snd (handleMessage clk (Some (PLAYER_REMOVE (starterId ra))) ?w) = [Broadcast (STATE st')]"
      "players st' = filter (\<lambda>p. id' p \<noteq> starterId ra) (deref ?w1 (players d0))"
      "rally st' = (case rally d0 of None \<Rightarrow> None | Some r \<Rightarrow> if starterId r = starterId ra then None else Some r)"
    by blast
  have "rally st' = None" using st'(4) ra by simp
  moreover have "starterId ra \<notin> ids (players st')"
    unfolding st'(3) ids_filter by simp
  ultimately have server: "\<exists>st'. current (fst (handleMessage clk (Some (PLAYER_REMOVE (starterId ra))) ?w))
                  = Some st' \<and>
               snd (handleMessage clk (Some (PLAYER_REMOVE (starterId ra))) ?w)
                  = [Broadcast (STATE st')] \<and>
               rally st' = None \<and> starterId ra \<notin> ids (players st')"
    using st'(1,2) by blast
  have client: "\<forall>rep r now delay.
            rally rep = Some r \<and> find (\<lambda>p. id' p = starterId r) (players rep) = None \<longrightarrow>
              rallyComputed rep now delay = None \<and>
              rallyComputed rep now delay = rallyComputed (rep\<lparr>rally := None\<rparr>) now delay"
    using rallyComputed_dangling by blast
  show ?thesis using server client by blast
qed

theorem starter_removal_witness:
  "current (ensureLoaded (nowLoad (clockAt 1700000003000)) (run exampleEvents initialWorld)) =
     Some \<lparr>players = [ann, bob],
           rally = Some \<lparr>starterId = ''a'', Rally.launchAt = 1700000312000\<rparr>,
           lastActiveAt = Some 1700000002000\<rparr> \<and>
   (\<exists>st'. current (fst (handleMessage (clockAt 1700000003000) (Some (PLAYER_REMOVE ''a''))
                        (run exampleEvents initialWorld))) = Some st' \<and>
      snd (handleMessage (clockAt 1700000003000) (Some (PLAYER_REMOVE ''a''))
             (run exampleEvents initialWorld)) = [Broadcast (STATE st')] \<and>
      rally st' = None \<and> ''a'' \<notin> ids (players st')) \<and>
   rallyComputed \<lparr>players = [bob],
      rally = Some \<lparr>starterId = ''a'', Rally.launchAt = 1700000312000\<rparr>,
      lastActiveAt = Some 1700000002000\<rparr> 1700000004000 5 = None"
proof -
  let ?st = "\<lparr>players = [ann, bob],
           rally = Some \<lparr>starterId = ''a'', Rally.launchAt = 1700000312000\<rparr>,
           lastActiveAt = Some 1700000002000\<rparr>"
  let ?rep = "\<lparr>players = [bob],
      rally = Some \<lparr>starterId = ''a'', Rally.launchAt = 1700000312000\<rparr>,
      lastActiveAt = Some 1700000002000\<rparr>"
  have a: "current (ensureLoaded (nowLoad (clockAt 1700000003000)) (run exampleEvents initialWorld)) = Some ?st"
    by (simp add: run_exampleEvents ensureLoaded_def current_def serialise_def deref_def)
  have b: "rally ?st = Some \<lparr>starterId = ''a'', Rally.launchAt = 1700000312000\<rparr>"
    by simp
  note T = starter_removal_ends_rally[OF a b]
  have c: "rally ?rep = Some \<lparr>starterId = ''a'', Rally.launchAt = 1700000312000\<rparr> \<and>
           find (\<lambda>p. id' p = starterId \<lparr>starterId = ''a'', Rally.launchAt = 1700000312000\<rparr>) (players ?rep) = None"
    by (simp add: bob_def)
  from conjunct2[OF T, rule_format, OF c, of 1700000004000 5]
  have client: "rallyComputed ?rep 1700000004000 5 = None" by simp
  from conjunct1[OF T] have server: "\<exists>st'. current (fst (handleMessage (clockAt 1700000003000) (Some (PLAYER_REMOVE ''a''))
                        (run exampleEvents initialWorld))) = Some st' \<and>
      snd (handleMessage (clockAt 1700000003000) (Some (PLAYER_REMOVE ''a''))
             (run exampleEvents initialWorld)) = [Broadcast (STATE st')] \<and>
      rally st' = None \<and> ''a'' \<notin> ids (players st')"
    by simp
  show ?thesis using a server client by blast
qed

text \<open>
  Claim C7, as stated, fails: \<open>RALLY_START\<close> is accepted for any non-empty
  \<open>starterId\<close>, whether or not a player has that id, and the rally then stays
  through later transitions.  After one, two and three transitions of
  \<open>ghostEvents\<close> the rally names \<open>ghost\<close>, who is not among the players.
\<close>

theorem dangling_rally_counterexample:
  "current (run (take 1 ghostEvents) initialWorld) =
     Some \<lparr>players = [], rally = Some \<lparr>starterId = ''ghost'', Rally.launchAt = 1700000310000\<rparr>,
           lastActiveAt = Some 1700000000000\<rparr> \<and>
   current (run (take 2 ghostEvents) initialWorld) =
     Some \<lparr>players = [ann], rally = Some \<lparr>starterId = ''ghost'', Rally.launchAt = 1700000310000\<rparr>,
           lastActiveAt = Some 1700000001000\<rparr> \<and>
   current (run ghostEvents initialWorld) =
     Some \<lparr>players = [ann, bob], rally = Some \<lparr>starterId = ''ghost'', Rally.launchAt = 1700000310000\<rparr>,
           lastActiveAt = Some 1700000002000\<rparr> \<and>
   ''ghost'' \<notin> ids [ann, bob]"
  by (simp add: ghostEvents_def eval_defs ids_def)

text \<open>
  Claim C7, amended.  In every state a room reaches from \<open>initialWorld\<close>
  through events in which each \<open>RALLY_START\<close> that sets a rally names a
  player of the state it is handled on, a present rally names a player of the
  state.
\<close>

theorem rally_names_player_when_starts_known:
  assumes "starts_known es initialWorld"
    and "current (run es initialWorld) = Some st"
    and "rally st = Some r"
  shows "\<exists>p\<in>set (players st). id' p = starterId r"
proof -
  have "world_ok (run es initialWorld)"
    by (rule run_ok[OF initialWorld_ok assms(1)])
  then have "rally_ok st"
    using assms(2) by (simp add: world_ok_def)
  then show ?thesis
    using assms(3) by (auto simp: rally_ok_def ids_def)
qed

theorem rally_names_player_witness:
  "starts_known exampleEvents initialWorld \<and>
   current (run exampleEvents initialWorld) =
     Some \<lparr>players = [ann, bob],
           rally = Some \<lparr>starterId = ''a'', Rally.launchAt = 1700000312000\<rparr>,
           lastActiveAt = Some 1700000002000\<rparr> \<and>
   (\<exists>p\<in>set [ann, bob]. id' p = ''a'')"
proof -
  let ?st = "\<lparr>players = [ann, bob],
           rally = Some \<lparr>starterId = ''a'', Rally.launchAt = 1700000312000\<rparr>,
           lastActiveAt = Some 1700000002000\<rparr>"
  have a: "starts_known exampleEvents initialWorld"
    by (simp add: exampleEvents_def eval_defs ids_def)
  have b: "current (run exampleEvents initialWorld) = Some ?st"
    by (simp add: run_exampleEvents current_def serialise_def deref_def)
  have c: "rally ?st = Some \<lparr>starterId = ''a'', Rally.launchAt = 1700000312000\<rparr>"
    by simp
  from rally_names_player_when_starts_known[OF a b c]
  have "\<exists>p\<in>set [ann, bob]. id' p = ''a''" by simp
  with a b show ?thesis by blast
qed

lemma computedLaunchAt_client: "computedLaunchAt t (JNum l) dur pre = Some l"
  by (simp add: computedLaunchAt_def)

lemma finite_number_iff: "typeof_number v \<and> Number_isFinite v \<longleftrightarrow> (\<exists>l. v = JNum l)"
  by (cases v) auto

lemma computedLaunchAt_server:
  assumes "\<not> (typeof_number la \<and> Number_isFinite la)"
    and "Number dur = JNum d" "0 \<le> d" "Number (nullish pre (JNum 0)) = JNum p" "0 \<le> p"
  shows "computedLaunchAt t la dur pre = Some (t + p + d)"
  using assms by (cases la) (auto simp: computedLaunchAt_def)

lemma computedLaunchAt_dropped:
  assumes "\<not> (typeof_number la \<and> Number_isFinite la)"
    and "\<not> (\<exists>d p. Number dur = JNum d \<and> 0 \<le> d \<and> Number (nullish pre (JNum 0)) = JNum p \<and> 0 \<le> p)"
  shows "computedLaunchAt t la dur pre = None"
  using assms
  by (cases la; cases "Number dur"; cases "Number (nullish pre (JNum 0))")
     (auto simp: computedLaunchAt_def)

lemma rally_start_effect:
  assumes sid: "sid \<noteq> []" and d0: "data (ensureLoaded (nowLoad clk) w) = Some d0"
  shows "(computedLaunchAt (nowA clk) la dur pre = None \<longrightarrow>
            snd (handleMessage clk (Some (RALLY_START sid la dur pre)) w) = [] \<and>
            Option.bind (current (fst (handleMessage clk (Some (RALLY_START sid la dur pre)) w))) rally
              = Option.bind (current (ensureLoaded (nowLoad clk) w)) rally) \<and>
         (\<forall>l. computedLaunchAt (nowA clk) la dur pre = Some l \<longrightarrow>
            (\<exists>st'. current (fst (handleMessage clk (Some (RALLY_START sid la dur pre)) w)) = Some st' \<and>
               snd (handleMessage clk (Some (RALLY_START sid la dur pre)) w) = [Broadcast (STATE st')] \<and>
               rally st' = Some \<lparr>starterId = sid, Rally.launchAt = l\<rparr>))"
  using sid d0
  by (auto simp: handleMessage_def Let_def persist_def broadcast_def serialise_def current_def
        split: option.splits)

text \<open>
  Claim C5, as stated, fails: a \<open>RALLY_START\<close> that carries a finite numeric
  \<open>launchAt\<close> has that instant stored, not the server's time plus the delays.
\<close>

theorem client_launchAt_counterexample:
  "current (run [Message (clockAt 1700000000000) (Some (PLAYER_ADD (Some ann))),
                 Message (clockAt 1700000001000)
                   (Some (RALLY_START ''a'' (JNum 1700000100000) (JNum 300000) (JNum 10000)))]
              initialWorld) =
     Some \<lparr>players = [ann],
           rally = Some \<lparr>starterId = ''a'', Rally.launchAt = 1700000100000\<rparr>,
           lastActiveAt = Some 1700000001000\<rparr> \<and>
   nowLoad (clockAt 1700000001000) = 1700000001000 \<and>
   nowActive (clockAt 1700000001000) = 1700000001000 \<and>
   nowA (clockAt 1700000001000) = 1700000001000 \<and>
   nowB (clockAt 1700000001000) = 1700000001000 \<and>
   (1700000001000 :: number) + 10000 + 300000 \<noteq> 1700000100000"
  by (simp add: eval_defs)

text \<open>
  Claim C5, amended.  For a \<open>RALLY_START\<close> with a non-empty \<open>starterId\<close>:
  a finite numeric \<open>launchAt\<close> of the message becomes the rally's
  \<open>launchAt\<close>; without one, when \<open>Number(rallyDurationMs)\<close> and
  \<open>Number(preDelayMs ?? 0)\<close> are finite and not negative, the rally's
  \<open>launchAt\<close> is the server's \<open>Date.now()\<close> plus both, and the new state is
  broadcast; in every other case nothing is sent and the rally stays as it was.
\<close>

theorem rally_start_launchAt:
  assumes "sid \<noteq> []"
  shows "(let H = handleMessage clk (Some (RALLY_START sid la dur pre)) w in
     (\<forall>l. la = JNum l \<longrightarrow>
        (\<exists>st'. current (fst H) = Some st' \<and> snd H = [Broadcast (STATE st')] \<and>
           rally st' = Some \<lparr>starterId = sid, Rally.launchAt = l\<rparr>)) \<and>
     (\<forall>d p. \<not> (typeof_number la \<and> Number_isFinite la) \<and>
        Number dur = JNum d \<and> 0 \<le> d \<and> Number (nullish pre (JNum 0)) = JNum p \<and> 0 \<le> p \<longrightarrow>
        (\<exists>st'. current (fst H) = Some st' \<and> snd H = [Broadcast (STATE st')] \<and>
           rally st' = Some \<lparr>starterId = sid, Rally.launchAt = nowA clk + p + d\<rparr>)) \<and>
     (\<not> (typeof_number la \<and> Number_isFinite la) \<and>
      \<not> (\<exists>d p. Number dur = JNum d \<and> 0 \<le> d \<and> Number (nullish pre (JNum 0)) = JNum p \<and> 0 \<le> p) \<longrightarrow>
        snd H = [] \<and>
        Option.bind (current (fst H)) rally =
          Option.bind (current (ensureLoaded (nowLoad clk) w)) rally))"
proof -
  obtain d0 where d0: "data (ensureLoaded (nowLoad clk) w) = Some d0"
    using ensureLoaded_data by blast
  note E = rally_start_effect[OF assms d0, of la dur pre]
  let ?H = "handleMessage clk (Some (RALLY_START sid la dur pre)) w"
  have 1: "\<exists>st'. current (fst ?H) = Some st' \<and> snd ?H = [Broadcast (STATE st')] \<and>
           rally st' = Some \<lparr>starterId = sid, Rally.launchAt = l\<rparr>" if "la = JNum l" for l
    using E computedLaunchAt_client[of "nowA clk" l dur pre] that by blast
  have 2: "\<exists>st'. current (fst ?H) = Some st' \<and> snd ?H = [Broadcast (STATE st')] \<and>
           rally st' = Some \<lparr>starterId = sid, Rally.launchAt = nowA clk + p + d\<rparr>"
    if "\<not> (typeof_number la \<and> Number_isFinite la)" "Number dur = JNum d" "0 \<le> d"
       "Number (nullish pre (JNum 0)) = JNum p" "0 \<le> p" for d p
    using E computedLaunchAt_server[OF that, of "nowA clk"] by blast
  have 3: "snd ?H = [] \<and>
        Option.bind (current (fst ?H)) rally = Option.bind (current (ensureLoaded (nowLoad clk) w)) rally"
    if "\<not> (typeof_number la \<and> Number_isFinite la)"
      "\<not> (\<exists>d p. Number dur = JNum d \<and> 0 \<le> d \<and> Number (nullish pre (JNum 0)) = JNum p \<and> 0 \<le> p)"
    using E computedLaunchAt_dropped[OF that, of "nowA clk"] by blast
  show ?thesis unfolding Let_def using 1 2 3 by blast
qed

theorem rally_start_witness:
  "''a'' \<noteq> [] \<and>
   (\<exists>st'. current (fst (handleMessage (clockAt 1700000000000)
              (Some (RALLY_START ''a'' JUndefined (JNum 300000) (JNum 10000))) initialWorld)) = Some st' \<and>
      rally st' = Some \<lparr>starterId = ''a'', Rally.launchAt = 1700000310000\<rparr>) \<and>
   (\<exists>st'. current (fst (handleMessage (clockAt 1700000000000)
              (Some (RALLY_START ''a'' (JNum 1700000100000) (JNum 300000) (JNum 10000))) initialWorld)) = Some st' \<and>
      rally st' = Some \<lparr>starterId = ''a'', Rally.launchAt = 1700000100000\<rparr>) \<and>
   snd (handleMessage (clockAt 1700000000000)
          (Some (RALLY_START ''a'' JUndefined JUndefined (JNum 10000))) initialWorld) = []"
proof -
  have ne: "''a'' \<noteq> []" by simp
  note T1 = rally_start_launchAt[OF ne, of "clockAt 1700000000000" JUndefined "JNum 300000"
      "JNum 10000" initialWorld, unfolded Let_def]
  note T2 = rally_start_launchAt[OF ne, of "clockAt 1700000000000" "JNum 1700000100000"
      "JNum 300000" "JNum 10000" initialWorld, unfolded Let_def]
  note T3 = rally_start_launchAt[OF ne, of "clockAt 1700000000000" JUndefined JUndefined
      "JNum 10000" initialWorld, unfolded Let_def]
  have 1: "\<exists>st'. current (fst (handleMessage (clockAt 1700000000000)
              (Some (RALLY_START ''a'' JUndefined (JNum 300000) (JNum 10000))) initialWorld)) = Some st' \<and>
      rally st' = Some \<lparr>starterId = ''a'', Rally.launchAt = 1700000310000\<rparr>"
    using conjunct1[OF conjunct2[OF T1], rule_format, of 300000 10000]
    by (auto simp: clockAt_def)
  have 2: "\<exists>st'. current (fst (handleMessage (clockAt 1700000000000)
              (Some (RALLY_START ''a'' (JNum 1700000100000) (JNum 300000) (JNum 10000))) initialWorld)) = Some st' \<and>
      rally st' = Some \<lparr>starterId = ''a'', Rally.launchAt = 1700000100000\<rparr>"
    using conjunct1[OF T2, rule_format, of 1700000100000] by auto
  have 3: "snd (handleMessage (clockAt 1700000000000)
          (Some (RALLY_START ''a'' JUndefined JUndefined (JNum 10000))) initialWorld) = []"
    using conjunct2[OF conjunct2[OF T3]] by simp
  show ?thesis using ne 1 2 3 by blast
qed

lemma ensureLoaded_stored:
  assumes "data w = None" and "storage w = Some st"
  shows "(lastActiveAt st = None \<or> (\<exists>t. lastActiveAt st = Some t \<and> (t = 0 \<or> now - t > MAX_AGE_MS)) \<longrightarrow>
            current (ensureLoaded now w) =
              Some \<lparr>players = DEFAULT_STATE_players w, rally = None, lastActiveAt = Some now\<rparr> \<and>
            storage (ensureLoaded now w) = current (ensureLoaded now w)) \<and>
         ((\<exists>t. lastActiveAt st = Some t \<and> t \<noteq> 0 \<and> now - t \<le> MAX_AGE_MS) \<longrightarrow>
            current (ensureLoaded now w) = Some st \<and> storage (ensureLoaded now w) = Some st)"
  using assms
  by (auto simp: ensureLoaded_def Let_def persist_def serialise_def deserialise_def current_def
        deref_def)

text \<open>
  The same through two rooms of one module instance: after a fresh room has
  handled a \<open>PLAYER_ADD\<close>, another room whose stored state has expired is
  reset to a state that holds the first room's player.
\<close>

lemma expired_reset_sees_other_room:
  "current (ensureLoaded 1700021601001
      \<lparr>DEFAULT_STATE_players =
         DEFAULT_STATE_players
           (run [Message (clockAt 1700000000000) (Some (PLAYER_ADD (Some ann)))] initialWorld),
       data = None,
       storage = Some \<lparr>players = [bob], rally = None, lastActiveAt = Some 1700000001000\<rparr>\<rparr>) =
     Some \<lparr>players = [ann], rally = None, lastActiveAt = Some 1700021601001\<rparr>"
  by (simp add: eval_defs)

text \<open>
  Claim C10.  The reset state of \<open>ensureLoaded\<close> takes its players from the
  array of \<open>DEFAULT_STATE\<close>, which \<open>PLAYER_ADD\<close> has written to: after
  \<open>expiryEvents\<close> the stored state has no players and is older than
  \<open>MAX_AGE_MS\<close>, and the state \<open>ensureLoaded\<close> resets the room to has the
  player that was added and removed.
\<close>

theorem expired_reset_keeps_shared_players:
  "storage (run expiryEvents initialWorld) =
     Some \<lparr>players = [], rally = None, lastActiveAt = Some 1700000001000\<rparr> \<and>
   data (run expiryEvents initialWorld) = None \<and>
   1700021601001 - 1700000001000 > MAX_AGE_MS \<and>
   current (ensureLoaded 1700021601001 (run expiryEvents initialWorld)) =
     Some \<lparr>players = [ann], rally = None, lastActiveAt = Some 1700021601001\<rparr> \<and>
   storage (ensureLoaded 1700021601001 (run expiryEvents initialWorld)) =
     Some \<lparr>players = [ann], rally = None, lastActiveAt = Some 1700021601001\<rparr> \<and>
   current (run (expiryEvents @ [Fetch 1700021601001]) initialWorld) =
     Some \<lparr>players = [ann], rally = None, lastActiveAt = Some 1700021601001\<rparr>"
  by (simp add: expiryEvents_def eval_defs)

end
